theory Spec2Isabelle
  imports Complex_Main
begin

section \<open>Configuration constants (CONFIG)\<close>

definition MOBILE_BREAKPOINT :: int where "MOBILE_BREAKPOINT = 768"
definition TABLET_BREAKPOINT :: int where "TABLET_BREAKPOINT = 1024"
definition CHAT_AUTO_CLOSE :: nat where "CHAT_AUTO_CLOSE = 30000"
definition CHAT_MIN_RESPONSE_TIME :: real where "CHAT_MIN_RESPONSE_TIME = 1000"
definition CHAT_MAX_RESPONSE_TIME :: real where "CHAT_MAX_RESPONSE_TIME = 3000"

section \<open>Strings\<close>

text \<open>
  A JavaScript string is modelled as a list of code units below 256 (the Latin-1 part of
  UTF-16), one \<^typ>\<open>char\<close> each.  \<open>isSpace\<close> is the class \<^verbatim>\<open>\s\<close> of the regular
  expression engine, which is also the set \<^verbatim>\<open>String.prototype.trim\<close> strips: tab, line feed,
  vertical tab, form feed, carriage return, space and no-break space are its members
  in this range.
\<close>

definition isSpace :: "char \<Rightarrow> bool" where
  "isSpace c = (c = CHR 0x09 \<or> c = CHR 0x0A \<or> c = CHR 0x0B \<or> c = CHR 0x0C \<or> c = CHR 0x0D
     \<or> c = CHR 0x20 \<or> c = CHR 0xA0)"

definition trim :: "string \<Rightarrow> string" where
  "trim s = rev (dropWhile isSpace (rev (dropWhile isSpace s)))"

definition toLowerChar :: "char \<Rightarrow> char" where
  "toLowerChar c =
     (let n = (of_char c :: nat) in
      if (65 \<le> n \<and> n \<le> 90) \<or> (192 \<le> n \<and> n \<le> 222 \<and> n \<noteq> 215)
      then char_of (n + 32) else c)"

definition toLowerCase :: "string \<Rightarrow> string" where
  "toLowerCase s = map toLowerChar s"

section \<open>The regular expression of \<open>utils.validateEmail\<close>\<close>

text \<open>
  The literal \<^verbatim>\<open>/^[^\s@]+@[^\s@]+\.[^\s@]+$/\<close> is an anchored sequence of items, each a
  character class taken once or one-or-more times.
\<close>

datatype cclass = Lit char | NotSpaceAt

fun accepts :: "cclass \<Rightarrow> char \<Rightarrow> bool" where
  "accepts (Lit a) c = (c = a)"
| "accepts NotSpaceAt c = (\<not> isSpace c \<and> c \<noteq> CHR ''@'')"

datatype item = Once cclass | Plus cclass

text \<open>\<open>re_test\<close> is the backtracking matcher: a \<open>Plus\<close> item takes one character and
  then either goes on taking or hands over to the rest of the pattern; the end of the
  pattern is the anchor \<^verbatim>\<open>$\<close>.\<close>

fun re_test :: "item list \<Rightarrow> string \<Rightarrow> bool" where
  "re_test [] s = (s = [])"
| "re_test (Once k # r) [] = False"
| "re_test (Once k # r) (x # xs) = (accepts k x \<and> re_test r xs)"
| "re_test (Plus k # r) [] = False"
| "re_test (Plus k # r) (x # xs) = (accepts k x \<and> (re_test (Plus k # r) xs \<or> re_test r xs))"

text \<open>The declarative reading of the same pattern: the set of strings it matches.\<close>

fun re_lang :: "item list \<Rightarrow> string set" where
  "re_lang [] = {[]}"
| "re_lang (Once k # r) = {x # w | x w. accepts k x \<and> w \<in> re_lang r}"
| "re_lang (Plus k # r) = {u @ w | u w. u \<noteq> [] \<and> list_all (accepts k) u \<and> w \<in> re_lang r}"

definition email_re :: "item list" where
  "email_re = [Plus NotSpaceAt, Once (Lit CHR ''@''), Plus NotSpaceAt, Once (Lit CHR ''.''),
               Plus NotSpaceAt]"

definition validateEmail :: "string \<Rightarrow> bool" where
  "validateEmail email = re_test email_re (toLowerCase email)"

section \<open>Device classification\<close>

datatype deviceType = Mobile | Tablet | Desktop

definition getDeviceType :: "int \<Rightarrow> deviceType" where
  "getDeviceType width =
     (if width < MOBILE_BREAKPOINT then Mobile
      else if width < TABLET_BREAKPOINT then Tablet
      else Desktop)"

section \<open>Validation\<close>

text \<open>\<open>FormData.get\<close> gives the field's string, or null for a name the form does not
  have; the optional chain then leaves \<open>undefined\<close>, here \<open>None\<close>.  \<open>falsy\<close> is
  JavaScript's \<^verbatim>\<open>!x\<close> on such a value: undefined or the empty string.\<close>

type_synonym formData = "string \<rightharpoonup> string"

definition falsy :: "string option \<Rightarrow> bool" where
  "falsy v = (case v of None \<Rightarrow> True | Some s \<Rightarrow> s = [])"

definition validateChatForm :: "formData \<Rightarrow> bool" where
  "validateChatForm formData =
     (let name = map_option trim (formData ''chat-name'');
          email = map_option trim (formData ''chat-email'');
          message = map_option trim (formData ''chat-message'')
      in if falsy name \<or> (case name of None \<Rightarrow> False | Some n \<Rightarrow> length n < 2) then False
         else if falsy email \<or> (case email of None \<Rightarrow> False | Some e \<Rightarrow> \<not> validateEmail e)
           then False
         else if falsy message \<or> (case message of None \<Rightarrow> False | Some m \<Rightarrow> length m < 10)
           then False
         else True)"

text \<open>A form control as \<open>validateField\<close> reads and writes it.  \<open>f_minLength\<close> is the
  property \<^verbatim>\<open>field.minLength\<close>: \<open>None\<close> where the control has no such property
  (undefined), \<open>Some (-1)\<close> on an input or textarea without the attribute.\<close>

record field =
  f_value :: string
  f_required :: bool
  f_type :: string
  f_minLength :: "int option"
  f_classList :: "string list"
  f_ariaInvalid :: "string option"

definition classToggle :: "string \<Rightarrow> bool \<Rightarrow> string list \<Rightarrow> string list" where
  "classToggle c force cs =
     (if force then (if c \<in> set cs then cs else cs @ [c]) else removeAll c cs)"

definition boolString :: "bool \<Rightarrow> string" where
  "boolString b = (if b then ''true'' else ''false'')"

definition validateField :: "field \<Rightarrow> bool \<times> field" where
  "validateField f =
     (let v = trim (f_value f);
          isValid = True;
          isValid = (if f_required f \<and> v = [] then False else isValid);
          isValid = (if f_type f = ''email'' \<and> v \<noteq> [] \<and> \<not> validateEmail v then False
                     else isValid);
          isValid = (if (case f_minLength f of None \<Rightarrow> False
                         | Some m \<Rightarrow> m \<noteq> 0 \<and> int (length v) < m) then False
                     else isValid)
      in (isValid,
          f\<lparr>f_classList := classToggle ''error'' (\<not> isValid) (f_classList f),
            f_ariaInvalid := Some (boolString (\<not> isValid))\<rparr>))"

text \<open>The field-level rule as the specification words it, for comparison with
  \<open>validateField\<close>: required implies non-empty, type email implies the pattern, a
  declared minimum length (a non-negative \<^verbatim>\<open>minlength\<close>) implies that many characters.\<close>

definition declaresMinLength :: "field \<Rightarrow> bool" where
  "declaresMinLength f = (case f_minLength f of None \<Rightarrow> False | Some m \<Rightarrow> 0 \<le> m)"

definition specFieldValid :: "field \<Rightarrow> bool" where
  "specFieldValid f =
     ((\<not> f_required f \<or> trim (f_value f) \<noteq> [])
      \<and> (f_type f \<noteq> ''email'' \<or> trim (f_value f) \<in> re_lang email_re)
      \<and> (\<not> declaresMinLength f
           \<or> (case f_minLength f of None \<Rightarrow> True | Some m \<Rightarrow> m \<le> int (length (trim (f_value f))))))"

text \<open>Sample inputs: an optional e-mail control left empty, a required e-mail control
  holding an address with blanks around it, and a chat payload of three named values.\<close>

definition emptyOptionalEmail :: field where
  "emptyOptionalEmail =
     \<lparr>f_value = [], f_required = False, f_type = ''email'', f_minLength = Some (- 1),
      f_classList = [], f_ariaInvalid = None\<rparr>"

definition paddedRequiredEmail :: field where
  "paddedRequiredEmail =
     \<lparr>f_value = '' a@b.co '', f_required = True, f_type = ''email'', f_minLength = Some 6,
      f_classList = [''error''], f_ariaInvalid = Some ''true''\<rparr>"

definition chatPayload :: "string \<Rightarrow> string \<Rightarrow> string \<Rightarrow> formData" where
  "chatPayload n e m = [''chat-name'' \<mapsto> n, ''chat-email'' \<mapsto> e, ''chat-message'' \<mapsto> m]"

text \<open>The items whose character classes do not tell a letter from its lower-case form.\<close>

fun lower_stable :: "item \<Rightarrow> bool" where
  "lower_stable (Once k) = (k = NotSpaceAt \<or> k = Lit CHR ''@'' \<or> k = Lit CHR ''.'')"
| "lower_stable (Plus k) = (k = NotSpaceAt \<or> k = Lit CHR ''@'' \<or> k = Lit CHR ''.'')"

section \<open>The document and the application instance\<close>

text \<open>
  The parts of the page that the code reads and writes.  An element carries its class
  tokens, its attributes and its text; a missing element is \<open>None\<close>, as
  \<open>querySelector\<close> returns null.
\<close>

record htmlElement =
  classList :: "string list"
  attrs :: "string \<rightharpoonup> string"
  textContent :: string

text \<open>A submit button: \<open>originalText\<close> is \<^verbatim>\<open>dataset.originalText\<close>, \<open>ariaBusy\<close> the
  attribute \<^verbatim>\<open>aria-busy\<close>.\<close>

record button =
  innerHTML :: string
  disabled :: bool
  originalText :: "string option"
  ariaBusy :: "string option"

datatype tag = InputTag | TextareaTag

text \<open>The chat form: \<open>entries\<close> is what \<^verbatim>\<open>new FormData(form)\<close> reads, \<open>defaults\<close> what
  \<^verbatim>\<open>form.reset()\<close> restores, \<open>controls\<close> the form's \<^verbatim>\<open>input\<close> and \<^verbatim>\<open>textarea\<close>
  elements in document order, \<open>submitButton\<close> its \<^verbatim>\<open>button[type="submit"]\<close>.\<close>

record form =
  entries :: formData
  defaults :: formData
  controls :: "tag list"
  submitButton :: "button option"

record link =
  href :: "string option"
  linkClasses :: "string list"
  ariaCurrent :: "string option"

record pageSection =
  sectionId :: string
  offsetTop :: int
  offsetHeight :: int

text \<open>\<open>this.elements\<close>.  \<open>header\<close> is the header's \<^verbatim>\<open>offsetHeight\<close>; \<open>chatMessages\<close> the
  children of the transcript container; \<open>forms\<close> the ids of the forms other than the
  chat form; \<open>navList\<close>, \<open>chatClose\<close> and \<open>newsletterForm\<close> say whether the element
  exists.  The
  back-to-top button always exists once the elements are cached (it is created when the
  page has none).\<close>

record elements =
  nav :: "htmlElement option"
  navToggle :: "htmlElement option"
  navList :: bool
  navLinks :: "link list"
  header :: "int option"
  chatToggle :: "htmlElement option"
  chatPanel :: "htmlElement option"
  chatForm :: "form option"
  chatStatus :: "htmlElement option"
  chatClose :: bool
  chatMessages :: "htmlElement list option"
  forms :: "string list"
  newsletterForm :: bool
  sections :: "pageSection list"

record widgetState =
  isNavOpen :: bool
  isChatOpen :: bool
  currentSection :: string
  scrollPosition :: int
  deviceType :: deviceType

text \<open>Event targets, and the closures the code hands to \<^verbatim>\<open>addEventListener\<close>; a closure
  made once per element of a list carries the element's index.\<close>

datatype target =
    Window | Document | Connection
  | NavToggle | NavLink nat
  | ChatToggle | ChatClose | ChatForm | ChatControl nat
  | NewsletterForm | GenericForm nat | BackToTop

datatype handler =
    HandleNavToggle | HandleNavLinkClick nat
  | HandleChatToggle | HandleChatClose | HandleChatSubmit
  | BlurHandler nat | InputHandler nat
  | HandleNewsletterSubmit | HandleFormSubmit nat
  | ScrollToTop
  | ScrollHandler | ResizeHandler | LoadHandler | KeyDownHandler
  | ClickOutsideHandler | VisibilityHandler
  | PopStateHandler | LocationChangeHandler
  | Noop | RegisterServiceWorker | UpdateNetworkStatus
  | GlobalErrorHandler | UnhandledRejectionHandler

record listener =
  element :: target
  type :: string
  handler :: handler

datatype mediaQuery = PrefersDark | PrefersReducedMotion

datatype mediaHandler = DarkModeHandler | MotionHandler

text \<open>An entry of \<open>this.observers\<close>: an intersection observer (it has \<open>disconnect\<close>) or a
  media query with the handler added to it.\<close>

datatype observer = IntersectionObs nat | MediaObs mediaQuery mediaHandler

text \<open>What the browser offers, as the feature tests of the code read it.\<close>

record features =
  hasIntersectionObserver :: bool
  nativeLazyLoading :: bool
  hasConnection :: bool
  secureServiceWorker :: bool
  hasPushState :: bool

text \<open>How a promise ends, and the callbacks the chat code hands to \<^verbatim>\<open>setTimeout\<close>.\<close>

datatype settlement = Fulfilled | Rejected

datatype task =
    TransportSettled settlement
  | AutoCloseChat
  | ClearChatStatus
  | FocusFirstInput
  | RemoveAnnouncement nat

text \<open>
  The instance (\<open>state\<close>, \<open>elements\<close>, \<open>observers\<close>, \<open>eventListeners\<close>) together with the
  browser state it acts on: the body's \<^verbatim>\<open>overflow\<close> style, the focused element, the
  live-region announcements under the body (each with the number of its node), the
  console's error lines, the clock in milliseconds with the pending timers (each with
  the time it is due, in the order they were queued), the listeners attached to targets,
  the listeners added to media queries, and the intersection observers that are
  observing.
\<close>

record app =
  state :: widgetState
  elements :: elements
  observers :: "observer list"
  eventListeners :: "listener list"
  bodyOverflow :: string
  activeElement :: "target option"
  announcements :: "(nat \<times> string) list"
  nextNode :: nat
  consoleErrors :: "string list"
  now :: nat
  timers :: "(nat \<times> task) list"
  attached :: "listener list"
  mediaListeners :: "(mediaQuery \<times> mediaHandler) list"
  observing :: "nat list"
  nextObserver :: nat
  features :: features

section \<open>Navigation state\<close>

definition updateNavState :: "app \<Rightarrow> app" where
  "updateNavState s =
     (case (nav (elements s), navToggle (elements s)) of
        (Some n, Some t) \<Rightarrow>
          (let opened = isNavOpen (state s);
               n' = n\<lparr>classList := classToggle ''mobile-active'' opened (classList n)\<rparr>;
               t' = t\<lparr>classList := classToggle ''active'' opened (classList t),
                      attrs := (attrs t)(''aria-expanded'' \<mapsto> boolString opened)\<rparr>;
               s' = s\<lparr>elements := (elements s)\<lparr>nav := Some n', navToggle := Some t'\<rparr>\<rparr>
           in if deviceType (state s) = Mobile
              then s'\<lparr>bodyOverflow := (if opened then ''hidden'' else [])\<rparr>
              else s')
      | _ \<Rightarrow> s)"

definition openNav :: "app \<Rightarrow> app" where
  "openNav s = updateNavState (s\<lparr>state := (state s)\<lparr>isNavOpen := True\<rparr>\<rparr>)"

definition closeNav :: "app \<Rightarrow> app" where
  "closeNav s = updateNavState (s\<lparr>state := (state s)\<lparr>isNavOpen := False\<rparr>\<rparr>)"

section \<open>Active-section tracking\<close>

text \<open>The loop over the sections of \<open>updateActiveNavLink\<close>, with its two variables
  \<open>currentActive\<close> (null at first) and \<open>minDistance\<close> (\<open>None\<close> is \<open>Infinity\<close>).\<close>

fun scanSections ::
  "int \<Rightarrow> pageSection list \<Rightarrow> string option \<times> int option \<Rightarrow> string option \<times> int option" where
  "scanSections p [] acc = acc"
| "scanSections p (sec # rest) (currentActive, minDistance) =
     (let sectionTop = offsetTop sec;
          sectionBottom = sectionTop + offsetHeight sec
      in if p \<ge> sectionTop \<and> p \<le> sectionBottom
         then (let distance = \<bar>p - sectionTop\<bar>
               in if (case minDistance of None \<Rightarrow> True | Some m \<Rightarrow> distance < m)
                  then scanSections p rest (Some (sectionId sec), Some distance)
                  else scanSections p rest (currentActive, minDistance))
         else scanSections p rest (currentActive, minDistance))"

text \<open>One navigation link: only a link whose \<open>href\<close> starts with \<^verbatim>\<open>#\<close> is touched.\<close>

definition markLink :: "string option \<Rightarrow> link \<Rightarrow> link" where
  "markLink currentActive l =
     (case href l of
        Some (c # anchor) \<Rightarrow>
          if c = CHR ''#'' then
            (if Some anchor = currentActive
             then l\<lparr>linkClasses := classToggle ''active'' True (linkClasses l),
                    ariaCurrent := Some ''page''\<rparr>
             else l\<lparr>linkClasses := classToggle ''active'' False (linkClasses l),
                    ariaCurrent := None\<rparr>)
          else l
      | _ \<Rightarrow> l)"

definition scrollProbe :: "app \<Rightarrow> int" where
  "scrollProbe s =
     scrollPosition (state s) + (case header (elements s) of None \<Rightarrow> 0 | Some h \<Rightarrow> h) + 100"

definition updateActiveNavLink :: "app \<Rightarrow> app" where
  "updateActiveNavLink s =
     (if navLinks (elements s) = [] then s
      else
        (let probe = scrollProbe s;
             currentActive = fst (scanSections probe (sections (elements s)) (None, None))
         in s\<lparr>elements := (elements s)\<lparr>navLinks := map (markLink currentActive) (navLinks (elements s))\<rparr>,
              state := (state s)\<lparr>currentSection :=
                 (case currentActive of None \<Rightarrow> ''home''
                  | Some i \<Rightarrow> if i = [] then ''home'' else i)\<rparr>\<rparr>))"

text \<open>A section's vertical extent, both edges included, and its distance from the
  probed point, as the loop computes them.\<close>

definition covers :: "int \<Rightarrow> pageSection \<Rightarrow> bool" where
  "covers p sec = (offsetTop sec \<le> p \<and> p \<le> offsetTop sec + offsetHeight sec)"

definition topDistance :: "int \<Rightarrow> pageSection \<Rightarrow> int" where
  "topDistance p sec = \<bar>p - offsetTop sec\<bar>"

definition idOrHome :: "string \<Rightarrow> string" where
  "idOrHome i = (if i = [] then ''home'' else i)"

text \<open>Whether a value beats the running minimum of the section loop.\<close>

definition closer :: "int option \<Rightarrow> int \<Rightarrow> bool" where
  "closer md d = (case md of None \<Rightarrow> True | Some m \<Rightarrow> d < m)"

text \<open>\<open>chosen p secs sec\<close>: \<open>sec\<close> is a section of the list whose extent contains \<open>p\<close>,
  strictly nearer by its top edge than every such section before it and at least as
  near as every such section after it.\<close>

definition chosen :: "int \<Rightarrow> pageSection list \<Rightarrow> pageSection \<Rightarrow> bool" where
  "chosen p secs sec =
     (\<exists>pre post. secs = pre @ sec # post \<and> covers p sec
        \<and> (\<forall>x\<in>set pre. covers p x \<longrightarrow> topDistance p sec < topDistance p x)
        \<and> (\<forall>x\<in>set post. covers p x \<longrightarrow> topDistance p sec \<le> topDistance p x))"

section \<open>Sample pages\<close>

text \<open>A page with none of the optional elements, in the state the constructor sets up
  on a desktop viewport, and variants of it.\<close>

definition blankElements :: elements where
  "blankElements =
     \<lparr>nav = None, navToggle = None, navList = False, navLinks = [], header = None, chatToggle = None,
      chatPanel = None, chatForm = None, chatStatus = None, chatClose = False,
      chatMessages = None, forms = [], newsletterForm = False, sections = []\<rparr>"

definition blankApp :: app where
  "blankApp =
     \<lparr>state = \<lparr>isNavOpen = False, isChatOpen = False, currentSection = ''home'',
               scrollPosition = 0, deviceType = getDeviceType 1280\<rparr>,
      elements = blankElements,
      observers = [], eventListeners = [], bodyOverflow = [], activeElement = None,
      announcements = [], nextNode = 0, consoleErrors = [], now = 0, timers = [],
      attached = [], mediaListeners = [], observing = [], nextObserver = 0,
      features = \<lparr>hasIntersectionObserver = True, nativeLazyLoading = True,
                  hasConnection = False, secureServiceWorker = False, hasPushState = True\<rparr>\<rparr>"

definition plainLink :: "string \<Rightarrow> link" where
  "plainLink h = \<lparr>href = Some h, linkClasses = [], ariaCurrent = None\<rparr>"

definition threeSections :: "pageSection list" where
  "threeSections =
     [\<lparr>sectionId = ''home'', offsetTop = 0, offsetHeight = 500\<rparr>,
      \<lparr>sectionId = ''about'', offsetTop = 500, offsetHeight = 700\<rparr>,
      \<lparr>sectionId = ''contact'', offsetTop = 1200, offsetHeight = 800\<rparr>]"

text \<open>Sections home, about and contact below a header of 60 pixels, scrolled so that the
  probed point is 440 + 60 + 100 = 600.\<close>

definition examplePage :: app where
  "examplePage =
     blankApp\<lparr>state := (state blankApp)\<lparr>scrollPosition := 440\<rparr>,
              elements := blankElements\<lparr>header := Some 60,
                 navLinks := [plainLink ''#home'', plainLink ''#about'', plainLink ''#contact''],
                 sections := threeSections\<rparr>\<rparr>"

text \<open>The same page scrolled past the end of its last section (the probed point is 2500).\<close>

definition scrolledPast :: app where
  "scrolledPast = examplePage\<lparr>state := (state examplePage)\<lparr>scrollPosition := 2340,
                                                            currentSection := ''contact''\<rparr>\<rparr>"

text \<open>The same page without navigation links, its \<open>currentSection\<close> left at \<open>contact\<close> by
  an earlier \<open>scrollToSection\<close>; the probed point is 600.\<close>

definition noLinksPage :: app where
  "noLinksPage =
     examplePage\<lparr>state := (state examplePage)\<lparr>currentSection := ''contact''\<rparr>,
                  elements := (elements examplePage)\<lparr>navLinks := []\<rparr>\<rparr>"

text \<open>The example page scrolled so that the probed point is 2000, the bottom edge of its
  last section.\<close>

definition bottomEdgePage :: app where
  "bottomEdgePage = examplePage\<lparr>state := (state examplePage)\<lparr>scrollPosition := 1840\<rparr>\<rparr>"

text \<open>A page whose one section has the empty string as its id, \<open>currentSection\<close> left at
  \<open>contact\<close>; the probed point is 600.\<close>

definition emptyIdPage :: app where
  "emptyIdPage =
     examplePage\<lparr>state := (state examplePage)\<lparr>currentSection := ''contact''\<rparr>,
                  elements := (elements examplePage)
                    \<lparr>sections := [\<lparr>sectionId = [], offsetTop = 0, offsetHeight = 1000\<rparr>]\<rparr>\<rparr>"

text \<open>A section's extent as the specification writes it, from the top edge up to but not
  including the bottom edge, for comparison with \<open>covers\<close>.\<close>

definition coversHalfOpen :: "int \<Rightarrow> pageSection \<Rightarrow> bool" where
  "coversHalfOpen p sec = (offsetTop sec \<le> p \<and> p < offsetTop sec + offsetHeight sec)"

definition navOpenApp :: app where
  "navOpenApp = blankApp\<lparr>state := (state blankApp)\<lparr>isNavOpen := True\<rparr>\<rparr>"

section \<open>Timers\<close>

text \<open>
  \<open>setTimeout\<close> queues a callback with the time it is due.  The browser runs the pending
  callback that is due first (the one queued first among equals); \<open>earliest\<close> finds it.
\<close>

definition setTimeout :: "task \<Rightarrow> nat \<Rightarrow> app \<Rightarrow> app" where
  "setTimeout callback delay s = s\<lparr>timers := timers s @ [(now s + delay, callback)]\<rparr>"

fun earliest :: "(nat \<times> task) list \<Rightarrow> (nat \<times> task) option" where
  "earliest [] = None"
| "earliest (t # ts) =
     (case earliest ts of
        None \<Rightarrow> Some t
      | Some u \<Rightarrow> if fst t \<le> fst u then Some t else Some u)"

section \<open>Chat widget\<close>

definition updateChatState :: "app \<Rightarrow> app" where
  "updateChatState s =
     (case (chatPanel (elements s), chatToggle (elements s)) of
        (Some p, Some t) \<Rightarrow>
          s\<lparr>elements := (elements s)
              \<lparr>chatPanel := Some (p\<lparr>attrs := (attrs p)(''aria-hidden'' \<mapsto>
                                  boolString (\<not> isChatOpen (state s)))\<rparr>),
               chatToggle := Some (t\<lparr>attrs := (attrs t)(''aria-expanded'' \<mapsto>
                                  boolString (isChatOpen (state s)))\<rparr>)\<rparr>\<rparr>
      | _ \<Rightarrow> s)"

definition showChatStatus :: "string \<Rightarrow> string \<Rightarrow> app \<Rightarrow> app" where
  "showChatStatus message kind s =
     (case chatStatus (elements s) of
        None \<Rightarrow> s
      | Some e \<Rightarrow>
          s\<lparr>elements := (elements s)
              \<lparr>chatStatus := Some (e\<lparr>textContent := message,
                                     classList := [''chat-status'', ''status-'' @ kind],
                                     attrs := (attrs e)(''role'' \<mapsto> ''status'',
                                                        ''aria-live'' \<mapsto> ''polite'')\<rparr>)\<rparr>\<rparr>)"

definition clearChatStatus :: "app \<Rightarrow> app" where
  "clearChatStatus s =
     (case chatStatus (elements s) of
        None \<Rightarrow> s
      | Some e \<Rightarrow>
          s\<lparr>elements := (elements s)
              \<lparr>chatStatus := Some (e\<lparr>textContent := [], classList := [''chat-status'']\<rparr>)\<rparr>\<rparr>)"

text \<open>The transcript's scroll position, a layout quantity, is not part of the model.\<close>

definition addChatMessage :: "string \<Rightarrow> string \<Rightarrow> app \<Rightarrow> app" where
  "addChatMessage message sender s =
     (case chatMessages (elements s) of
        None \<Rightarrow> s
      | Some kids \<Rightarrow>
          s\<lparr>elements := (elements s)
              \<lparr>chatMessages := Some (kids @
                 [\<lparr>classList = [''chat-message'', ''chat-message-'' @ sender],
                   attrs = Map.empty, textContent = message\<rparr>])\<rparr>\<rparr>)"

definition announceStateChange :: "string \<Rightarrow> app \<Rightarrow> app" where
  "announceStateChange message s =
     setTimeout (RemoveAnnouncement (nextNode s)) 1000
       (s\<lparr>announcements := announcements s @ [(nextNode s, message)],
          nextNode := nextNode s + 1\<rparr>)"

definition loadingMarkup :: string where
  "loadingMarkup = ''<span class='' @ [CHR 0x22] @ ''loading-spinner-small'' @ [CHR 0x22]
                   @ ''></span> Loading...''"

definition setButtonLoading :: "button option \<Rightarrow> bool \<Rightarrow> button option" where
  "setButtonLoading button isLoading =
     (case button of
        None \<Rightarrow> None
      | Some b \<Rightarrow>
          Some (if isLoading
                then b\<lparr>originalText := Some (innerHTML b), innerHTML := loadingMarkup,
                       disabled := True, ariaBusy := Some ''true''\<rparr>
                else b\<lparr>innerHTML := (case originalText b of
                                          None \<Rightarrow> innerHTML b
                                        | Some t \<Rightarrow> if t = [] then innerHTML b else t),
                       disabled := False, ariaBusy := None\<rparr>))"

text \<open>The submit button is a node inside the chat form; the handler's local variable
  \<open>submitButton\<close> refers to it.\<close>

definition onSubmitButton :: "bool \<Rightarrow> app \<Rightarrow> app" where
  "onSubmitButton isLoading s =
     (case chatForm (elements s) of
        None \<Rightarrow> s
      | Some f \<Rightarrow>
          s\<lparr>elements := (elements s)
              \<lparr>chatForm := Some (f\<lparr>submitButton := setButtonLoading (submitButton f) isLoading\<rparr>)\<rparr>\<rparr>)"

definition resetForm :: "app \<Rightarrow> app" where
  "resetForm s =
     (case chatForm (elements s) of
        None \<Rightarrow> s
      | Some f \<Rightarrow> s\<lparr>elements := (elements s)\<lparr>chatForm := Some (f\<lparr>entries := defaults f\<rparr>)\<rparr>\<rparr>)"

definition openChat :: "app \<Rightarrow> app" where
  "openChat s = updateChatState (s\<lparr>state := (state s)\<lparr>isChatOpen := True\<rparr>\<rparr>)"

definition closeChat :: "app \<Rightarrow> app" where
  "closeChat s = updateChatState (s\<lparr>state := (state s)\<lparr>isChatOpen := False\<rparr>\<rparr>)"

definition handleChatToggle :: "app \<Rightarrow> app" where
  "handleChatToggle s =
     (let s1 = updateChatState (s\<lparr>state := (state s)\<lparr>isChatOpen := \<not> isChatOpen (state s)\<rparr>\<rparr>);
          s2 = (if isChatOpen (state s1) \<and> chatForm (elements s1) \<noteq> None
                then setTimeout FocusFirstInput 100 s1 else s1)
      in announceStateChange
           (''Support chat '' @ (if isChatOpen (state s2) then ''opened'' else ''closed'')) s2)"

definition focusChatToggle :: "app \<Rightarrow> app" where
  "focusChatToggle s =
     (if chatToggle (elements s) \<noteq> None then s\<lparr>activeElement := Some ChatToggle\<rparr> else s)"

definition handleChatClose :: "app \<Rightarrow> app" where
  "handleChatClose s =
     focusChatToggle (updateChatState (s\<lparr>state := (state s)\<lparr>isChatOpen := False\<rparr>\<rparr>))"

text \<open>\<open>handleKeyDown\<close> for the Escape key.\<close>

definition handleEscape :: "app \<Rightarrow> app" where
  "handleEscape s =
     (let s1 = (if isNavOpen (state s)
                then (let a = updateNavState (s\<lparr>state := (state s)\<lparr>isNavOpen := False\<rparr>\<rparr>)
                      in if navToggle (elements a) \<noteq> None
                         then a\<lparr>activeElement := Some NavToggle\<rparr> else a)
                else s)
      in if isChatOpen (state s1)
         then focusChatToggle (updateChatState (s1\<lparr>state := (state s1)\<lparr>isChatOpen := False\<rparr>\<rparr>))
         else s1)"

text \<open>\<open>handleClickOutside\<close> for a click on a node outside the navigation list, the
  navigation toggle, the chat panel and the chat toggle.\<close>

definition handleClickOutside :: "app \<Rightarrow> app" where
  "handleClickOutside s =
     (let s1 = (if isNavOpen (state s) \<and> navList (elements s)
                then updateNavState (s\<lparr>state := (state s)\<lparr>isNavOpen := False\<rparr>\<rparr>)
                else s)
      in if isChatOpen (state s1) \<and> chatPanel (elements s1) \<noteq> None
         then updateChatState (s1\<lparr>state := (state s1)\<lparr>isChatOpen := False\<rparr>\<rparr>)
         else s1)"

section \<open>Chat submission\<close>

text \<open>
  \<open>simulateApiCall\<close> takes what \<^verbatim>\<open>Math.random()\<close> returns, a number from 0 up to but not
  including 1, here a real.  The promise it returns is built from an executor that is
  given \<open>resolve\<close> only and hands it to \<open>setTimeout\<close>, which truncates the delay to whole
  milliseconds: the queued callback fulfils the promise, and the function awaiting it
  resumes then.
\<close>

definition transportDelay :: "real \<Rightarrow> real" where
  "transportDelay rnd =
     rnd * (CHAT_MAX_RESPONSE_TIME - CHAT_MIN_RESPONSE_TIME) + CHAT_MIN_RESPONSE_TIME"

definition simulateApiCall :: "real \<Rightarrow> app \<Rightarrow> app" where
  "simulateApiCall rnd s =
     setTimeout (TransportSettled Fulfilled) (nat \<lfloor>transportDelay rnd\<rfloor>) s"

definition invalidMessage :: string where
  "invalidMessage = ''Please fill in all required fields correctly.''"

definition sendingMessage :: string where
  "sendingMessage = ''Sending your message...''"

definition successMessage :: string where
  "successMessage = ''Thank you! Our team will respond within 24 hours.''"

definition failureMessage :: string where
  "failureMessage = ''Sorry, something went wrong. Please try again.''"

definition receivedMessage :: string where
  "receivedMessage = ''Your message has been received. We'' @ [CHR 0x27]
                     @ ''ll get back to you soon!''"

text \<open>\<open>handleChatSubmit\<close> up to its \<^verbatim>\<open>await\<close>.\<close>

definition handleChatSubmit :: "real \<Rightarrow> app \<Rightarrow> app" where
  "handleChatSubmit rnd s =
     (case chatForm (elements s) of
        None \<Rightarrow> s
      | Some form \<Rightarrow>
          (let formData = entries form in
           if \<not> validateChatForm formData
           then showChatStatus invalidMessage ''error'' s
           else simulateApiCall rnd
                  (showChatStatus sendingMessage ''sending'' (onSubmitButton True s))))"

text \<open>\<open>handleChatSubmit\<close> from the moment the awaited promise is settled: the rest of the
  \<^verbatim>\<open>try\<close> block when it is fulfilled, the \<^verbatim>\<open>catch\<close> block when it is rejected, and the
  \<^verbatim>\<open>finally\<close> block after either.\<close>

definition handleChatSubmit_settled :: "settlement \<Rightarrow> app \<Rightarrow> app" where
  "handleChatSubmit_settled outcome s =
     (let s1 = (case outcome of
                  Fulfilled \<Rightarrow>
                    (let a = resetForm (showChatStatus successMessage ''success'' s);
                         b = (if chatMessages (elements a) \<noteq> None
                              then addChatMessage receivedMessage ''bot'' a else a)
                     in setTimeout AutoCloseChat CHAT_AUTO_CLOSE b)
                | Rejected \<Rightarrow>
                    showChatStatus failureMessage ''error''
                      (s\<lparr>consoleErrors := consoleErrors s @ [''Chat submission error:'']\<rparr>))
      in setTimeout ClearChatStatus 5000 (onSubmitButton False s1))"

section \<open>The event loop\<close>

fun firstInput :: "tag list \<Rightarrow> nat option" where
  "firstInput [] = None"
| "firstInput (InputTag # ts) = Some 0"
| "firstInput (TextareaTag # ts) = map_option Suc (firstInput ts)"

fun fire :: "task \<Rightarrow> app \<Rightarrow> app" where
  "fire (TransportSettled outcome) s = handleChatSubmit_settled outcome s"
| "fire AutoCloseChat s = updateChatState (s\<lparr>state := (state s)\<lparr>isChatOpen := False\<rparr>\<rparr>)"
| "fire ClearChatStatus s = clearChatStatus s"
| "fire FocusFirstInput s =
     (case chatForm (elements s) of
        None \<Rightarrow> s
      | Some f \<Rightarrow>
          (case firstInput (controls f) of
             None \<Rightarrow> s
           | Some i \<Rightarrow> s\<lparr>activeElement := Some (ChatControl i)\<rparr>))"
| "fire (RemoveAnnouncement n) s =
     s\<lparr>announcements := filter (\<lambda>a. fst a \<noteq> n) (announcements s)\<rparr>"

text \<open>What a callback may still cause: a settled transport queues two more callbacks.\<close>

fun weight :: "task \<Rightarrow> nat" where
  "weight (TransportSettled outcome) = 3"
| "weight t = 1"

definition load :: "app \<Rightarrow> nat" where
  "load s = sum_list (map (weight \<circ> snd) (timers s))"

lemma earliest_mem: "earliest ts = Some t \<Longrightarrow> t \<in> set ts"
  by (induction ts arbitrary: t) (auto split: option.splits if_splits)

lemma load_remove1:
  "t \<in> set ts \<Longrightarrow>
   sum_list (map (weight \<circ> snd) (remove1 t ts)) + weight (snd t) = sum_list (map (weight \<circ> snd) ts)"
  by (induction ts) auto

lemma timers_fire:
  "\<exists>new. timers (fire task s) = timers s @ new \<and> sum_list (map (weight \<circ> snd) new) < weight task"
  by (cases task)
     (auto simp: handleChatSubmit_settled_def setTimeout_def Let_def showChatStatus_def
        resetForm_def addChatMessage_def onSubmitButton_def updateChatState_def clearChatStatus_def
        split: option.splits settlement.splits)

lemma load_fire:
  assumes "t \<in> set (timers s)"
  shows "load (fire (snd t) (s\<lparr>now := n, timers := remove1 t (timers s)\<rparr>)) < load s"
proof -
  obtain new where new:
    "timers (fire (snd t) (s\<lparr>now := n, timers := remove1 t (timers s)\<rparr>)) = remove1 t (timers s) @ new"
    "sum_list (map (weight \<circ> snd) new) < weight (snd t)"
    using timers_fire [of "snd t" "s\<lparr>now := n, timers := remove1 t (timers s)\<rparr>"] by auto
  show ?thesis
    using new load_remove1 [OF assms] by (simp add: load_def)
qed

text \<open>
  Letting time pass up to \<open>target\<close>: the callbacks due by then run one after the other,
  each at its own time and each taken off the queue before it runs, those queued
  meanwhile included; then the clock stands at \<open>target\<close>.
\<close>

function runTimers :: "nat \<Rightarrow> app \<Rightarrow> app" where
  "runTimers target s =
     (case earliest (timers s) of
        None \<Rightarrow> s\<lparr>now := max (now s) target\<rparr>
      | Some t \<Rightarrow>
          if fst t \<le> target
          then runTimers target
                 (fire (snd t) (s\<lparr>now := max (now s) (fst t), timers := remove1 t (timers s)\<rparr>))
          else s\<lparr>now := max (now s) target\<rparr>)"
  by pat_completeness auto
termination
  by (relation "measure (\<lambda>(target, s). load s)") (auto dest!: earliest_mem intro: load_fire)

text \<open>
  What can happen to the chat widget: time passes; the form is submitted (with the
  number \<^verbatim>\<open>Math.random()\<close> would return); the user edits a form control; the toggle or
  the close button is clicked (each has its listener only when the element exists);
  Escape is pressed; a click lands outside the navigation and the chat widget; the page
  calls \<open>openChat\<close> or \<open>closeChat\<close>.
\<close>

datatype event =
    Tick nat
  | SubmitChat real
  | EditField string string
  | ClickChatToggle
  | ClickChatClose
  | PressEscape
  | ClickOutside
  | CallOpenChat
  | CallCloseChat

fun step :: "event \<Rightarrow> app \<Rightarrow> app" where
  "step (Tick n) s = runTimers (now s + n) s"
| "step (SubmitChat rnd) s = handleChatSubmit rnd s"
| "step (EditField name v) s =
     (case chatForm (elements s) of
        None \<Rightarrow> s
      | Some f \<Rightarrow> s\<lparr>elements := (elements s)\<lparr>chatForm := Some (f\<lparr>entries := (entries f)(name \<mapsto> v)\<rparr>)\<rparr>\<rparr>)"
| "step ClickChatToggle s = (if chatToggle (elements s) = None then s else handleChatToggle s)"
| "step ClickChatClose s = (if chatClose (elements s) then handleChatClose s else s)"
| "step PressEscape s = handleEscape s"
| "step ClickOutside s = handleClickOutside s"
| "step CallOpenChat s = openChat s"
| "step CallCloseChat s = closeChat s"

fun run :: "event list \<Rightarrow> app \<Rightarrow> app" where
  "run [] s = s"
| "run (e # es) s = run es (step e s)"

fun elapsed :: "event list \<Rightarrow> nat" where
  "elapsed [] = 0"
| "elapsed (Tick n # es) = n + elapsed es"
| "elapsed (e # es) = elapsed es"

text \<open>The chat panel is closed and the page shows it: the flag is off and, where panel
  and toggle both exist, their ARIA attributes say so.\<close>

definition chatShownClosed :: "app \<Rightarrow> bool" where
  "chatShownClosed s =
     (\<not> isChatOpen (state s)
      \<and> (case (chatPanel (elements s), chatToggle (elements s)) of
           (Some p, Some t) \<Rightarrow>
              attrs p ''aria-hidden'' = Some ''true'' \<and> attrs t ''aria-expanded'' = Some ''false''
         | _ \<Rightarrow> True))"

text \<open>A rejected transport is waiting in the queue; the \<^verbatim>\<open>catch\<close> block has run (it
  writes to the console); the status element shows the failure text.\<close>

definition rejectionPending :: "app \<Rightarrow> bool" where
  "rejectionPending s = (\<exists>d. (d, TransportSettled Rejected) \<in> set (timers s))"

definition catchRan :: "app \<Rightarrow> bool" where
  "catchRan s = (''Chat submission error:'' \<in> set (consoleErrors s))"

definition showsFailure :: "app \<Rightarrow> bool" where
  "showsFailure s =
     (case chatStatus (elements s) of None \<Rightarrow> False | Some e \<Rightarrow> textContent e = failureMessage)"

text \<open>No trace of a failed transport.\<close>

definition quiet :: "app \<Rightarrow> bool" where
  "quiet s = (\<not> rejectionPending s \<and> \<not> catchRan s \<and> \<not> showsFailure s)"

text \<open>The time one event takes.\<close>

definition span :: "event \<Rightarrow> nat" where
  "span e = (case e of Tick n \<Rightarrow> n | _ \<Rightarrow> 0)"

section \<open>A sample page with the chat widget\<close>

definition plainElement :: htmlElement where
  "plainElement = \<lparr>classList = [], attrs = Map.empty, textContent = []\<rparr>"

definition sendButton :: button where
  "sendButton = \<lparr>innerHTML = ''Send'', disabled = False, originalText = None, ariaBusy = None\<rparr>"

definition chatFormOf :: "formData \<Rightarrow> form" where
  "chatFormOf fd =
     \<lparr>entries = fd, defaults = chatPayload [] [] [],
      controls = [InputTag, InputTag, TextareaTag], submitButton = Some sendButton\<rparr>"

text \<open>The chat widget with all its elements, the panel open, the form holding \<open>fd\<close>.\<close>

definition chatPage :: "formData \<Rightarrow> app" where
  "chatPage fd =
     blankApp\<lparr>state := (state blankApp)\<lparr>isChatOpen := True\<rparr>,
              elements := blankElements
                \<lparr>chatToggle := Some plainElement, chatPanel := Some plainElement,
                 chatForm := Some (chatFormOf fd), chatStatus := Some plainElement,
                 chatClose := True, chatMessages := Some []\<rparr>\<rparr>"

definition goodPayload :: formData where
  "goodPayload = chatPayload ''Al'' ''a@b.co'' ''1234567890''"

definition badPayload :: formData where
  "badPayload = chatPayload ''Al'' ''a@b'' ''1234567890''"

text \<open>That page right after the success branch of a submission has run.\<close>

definition afterSuccess :: app where
  "afterSuccess = handleChatSubmit_settled Fulfilled (chatPage goodPayload)"

text \<open>The page has the chat toggle and the close button.\<close>

definition hasChatButtons :: "app \<Rightarrow> bool" where
  "hasChatButtons s = (chatToggle (elements s) \<noteq> None \<and> chatClose (elements s))"

section \<open>Listeners, observers and the life cycle\<close>

text \<open>
  \<open>addEventListener\<close> attaches a listener unless the same callback is already attached
  to the target for the event type; \<open>removeEventListener\<close> detaches it.  \<open>listen\<close> is the
  pair of statements the code uses for a listener it keeps track of: attach it and push
  the triple to \<open>this.eventListeners\<close>.  Every element is taken as a node of its own
  (a newsletter form that is also one of the general forms counts twice).
\<close>

definition addEventListener :: "listener \<Rightarrow> app \<Rightarrow> app" where
  "addEventListener l s = (if l \<in> set (attached s) then s else s\<lparr>attached := attached s @ [l]\<rparr>)"

definition removeEventListener :: "listener \<Rightarrow> app \<Rightarrow> app" where
  "removeEventListener l s = s\<lparr>attached := removeAll l (attached s)\<rparr>"

definition listen :: "listener \<Rightarrow> app \<Rightarrow> app" where
  "listen l s = (addEventListener l s)\<lparr>eventListeners := eventListeners s @ [l]\<rparr>"

definition setupEventListeners :: "app \<Rightarrow> app" where
  "setupEventListeners s =
     (let s1 = (if navToggle (elements s) \<noteq> None
                then listen \<lparr>element = NavToggle, type = ''click'', handler = HandleNavToggle\<rparr> s
                else s);
          s2 = fold (\<lambda>i. listen \<lparr>element = NavLink i, type = ''click'',
                                    handler = HandleNavLinkClick i\<rparr>)
                 [0..<length (navLinks (elements s1))] s1;
          s3 = (if chatToggle (elements s2) \<noteq> None
                then listen \<lparr>element = ChatToggle, type = ''click'', handler = HandleChatToggle\<rparr> s2
                else s2);
          s4 = (if chatClose (elements s3)
                then listen \<lparr>element = ChatClose, type = ''click'', handler = HandleChatClose\<rparr> s3
                else s3);
          s5 = (case chatForm (elements s4) of
                  None \<Rightarrow> s4
                | Some f \<Rightarrow>
                    fold (\<lambda>i s. listen \<lparr>element = ChatControl i, type = ''input'',
                                           handler = InputHandler i\<rparr>
                                   (listen \<lparr>element = ChatControl i, type = ''blur'',
                                            handler = BlurHandler i\<rparr> s))
                      [0..<length (controls f)]
                      (listen \<lparr>element = ChatForm, type = ''submit'', handler = HandleChatSubmit\<rparr> s4));
          s6 = (if newsletterForm (elements s5)
                then listen \<lparr>element = NewsletterForm, type = ''submit'',
                             handler = HandleNewsletterSubmit\<rparr> s5
                else s5);
          s7 = fold (\<lambda>i s. if forms (elements s) ! i = ''signup-form''
                                 \<or> forms (elements s) ! i = ''login-form''
                              then s
                              else listen \<lparr>element = GenericForm i, type = ''submit'',
                                           handler = HandleFormSubmit i\<rparr> s)
                 [0..<length (forms (elements s6))] s6;
          s8 = listen \<lparr>element = BackToTop, type = ''click'', handler = ScrollToTop\<rparr> s7
      in fold listen
           [\<lparr>element = Window, type = ''scroll'', handler = ScrollHandler\<rparr>,
            \<lparr>element = Window, type = ''resize'', handler = ResizeHandler\<rparr>,
            \<lparr>element = Window, type = ''load'', handler = LoadHandler\<rparr>,
            \<lparr>element = Document, type = ''keydown'', handler = KeyDownHandler\<rparr>,
            \<lparr>element = Document, type = ''click'', handler = ClickOutsideHandler\<rparr>,
            \<lparr>element = Document, type = ''visibilitychange'', handler = VisibilityHandler\<rparr>]
           s8)"

text \<open>Which elements an intersection observer watches is not part of the model, only
  whether it is observing.\<close>

definition initIntersectionObserver :: "app \<Rightarrow> app" where
  "initIntersectionObserver s =
     (if \<not> hasIntersectionObserver (features s) then s
      else s\<lparr>observing := observing s @ [nextObserver s],
             nextObserver := nextObserver s + 1,
             observers := observers s @ [IntersectionObs (nextObserver s)]\<rparr>)"

definition initServiceWorker :: "app \<Rightarrow> app" where
  "initServiceWorker s =
     (if secureServiceWorker (features s)
      then addEventListener \<lparr>element = Window, type = ''load'', handler = RegisterServiceWorker\<rparr> s
      else s)"

text \<open>Smooth scrolling and analytics need no set-up; the start styles of the entrance
  animations are not part of the model.\<close>

definition initModules :: "app \<Rightarrow> app" where
  "initModules s = initServiceWorker (initIntersectionObserver s)"

definition observeSystemPreferences :: "app \<Rightarrow> app" where
  "observeSystemPreferences s =
     s\<lparr>mediaListeners := mediaListeners s @ [(PrefersDark, DarkModeHandler),
                                              (PrefersReducedMotion, MotionHandler)],
       observers := observers s @ [MediaObs PrefersDark DarkModeHandler,
                                    MediaObs PrefersReducedMotion MotionHandler]\<rparr>"

text \<open>\<open>observeNavigationState\<close> also replaces \<^verbatim>\<open>history.pushState\<close> and
  \<^verbatim>\<open>history.replaceState\<close> by wrappers; they are not part of the model.\<close>

definition observeNavigationState :: "app \<Rightarrow> app" where
  "observeNavigationState s =
     (if hasPushState (features s)
      then listen \<lparr>element = Window, type = ''locationchange'', handler = LocationChangeHandler\<rparr>
             (listen \<lparr>element = Window, type = ''popstate'', handler = PopStateHandler\<rparr> s)
      else s)"

text \<open>The first run of \<open>updateNetworkStatus\<close>, right after it is attached, is not part
  of the model.\<close>

definition observeNetworkStatus :: "app \<Rightarrow> app" where
  "observeNetworkStatus s =
     (if hasConnection (features s)
      then addEventListener \<lparr>element = Connection, type = ''change'',
                              handler = UpdateNetworkStatus\<rparr> s
      else s)"

definition setupObservers :: "app \<Rightarrow> app" where
  "setupObservers s = observeNetworkStatus (observeNavigationState (observeSystemPreferences s))"

definition setupPassiveEventListeners :: "app \<Rightarrow> app" where
  "setupPassiveEventListeners s =
     addEventListener \<lparr>element = Document, type = ''touchmove'', handler = Noop\<rparr>
       (addEventListener \<lparr>element = Document, type = ''touchstart'', handler = Noop\<rparr> s)"

definition setupLazyLoadFallback :: "app \<Rightarrow> app" where
  "setupLazyLoadFallback s =
     (if \<not> hasIntersectionObserver (features s) then s
      else s\<lparr>observing := observing s @ [nextObserver s],
             nextObserver := nextObserver s + 1\<rparr>)"

definition setupLazyLoading :: "app \<Rightarrow> app" where
  "setupLazyLoading s = (if nativeLazyLoading (features s) then s else setupLazyLoadFallback s)"

text \<open>Preloading images adds \<^verbatim>\<open>link\<close> elements to the head; they are not part of the
  model.  \<open>LAZY_LOAD_ENABLED\<close> is true.\<close>

definition optimizePerformance :: "app \<Rightarrow> app" where
  "optimizePerformance s = setupLazyLoading (setupPassiveEventListeners s)"

text \<open>
  The constructor, for a viewport of width \<open>w\<close>: a fresh state and empty lists, then
  \<open>init\<close>.  The elements are taken as cached; \<open>updateUIStates\<close> and \<open>setCurrentYear\<close>
  write to parts of the page that are not in the model.
\<close>

definition init :: "app \<Rightarrow> app" where
  "init s = optimizePerformance (setupObservers (initModules (setupEventListeners s)))"

definition fresh :: "int \<Rightarrow> app \<Rightarrow> app" where
  "fresh w s =
     s\<lparr>state := \<lparr>isNavOpen = False, isChatOpen = False, currentSection = ''home'',
                  scrollPosition = 0, deviceType = getDeviceType w\<rparr>,
       observers := [], eventListeners := []\<rparr>"

definition construct :: "int \<Rightarrow> app \<Rightarrow> app" where
  "construct w s = init (fresh w s)"

text \<open>\<open>initApp\<close> on a page that has no instance yet.\<close>

definition initApp :: "int \<Rightarrow> app \<Rightarrow> app" where
  "initApp w s =
     addEventListener \<lparr>element = Window, type = ''unhandledrejection'',
                        handler = UnhandledRejectionHandler\<rparr>
       (addEventListener \<lparr>element = Window, type = ''error'', handler = GlobalErrorHandler\<rparr>
          (construct w s))"

definition releaseObserver :: "observer \<Rightarrow> app \<Rightarrow> app" where
  "releaseObserver ob s =
     (case ob of
        IntersectionObs n \<Rightarrow> s\<lparr>observing := removeAll n (observing s)\<rparr>
      | MediaObs m h \<Rightarrow> s\<lparr>mediaListeners := removeAll (m, h) (mediaListeners s)\<rparr>)"

text \<open>\<open>destroy\<close>.  Taking the back-to-top button out of the document is not part of the
  model.\<close>

definition destroy :: "app \<Rightarrow> app" where
  "destroy s =
     (let s1 = (fold removeEventListener (eventListeners s) s)\<lparr>eventListeners := []\<rparr>
      in (fold releaseObserver (observers s1) s1)\<lparr>observers := []\<rparr>)"

text \<open>The callbacks an event of the given type at the given target runs.\<close>

definition dispatch :: "target \<Rightarrow> string \<Rightarrow> app \<Rightarrow> handler list" where
  "dispatch tg ty s = map handler (filter (\<lambda>l. element l = tg \<and> type l = ty) (attached s))"

text \<open>The callbacks of the listeners that the code pushes to \<open>this.eventListeners\<close>.\<close>

fun tracked :: "handler \<Rightarrow> bool" where
  "tracked Noop = False"
| "tracked RegisterServiceWorker = False"
| "tracked UpdateNetworkStatus = False"
| "tracked GlobalErrorHandler = False"
| "tracked UnhandledRejectionHandler = False"
| "tracked h = True"

text \<open>\<open>grows s s'\<close>: from \<open>s\<close> to \<open>s'\<close> no listener was detached, the registry got
  new entries at its end, all with tracked callbacks, and elements and browser features
  are the same.\<close>

definition grows :: "app \<Rightarrow> app \<Rightarrow> bool" where
  "grows s s' =
     (set (attached s) \<subseteq> set (attached s')
      \<and> (\<exists>new. eventListeners s' = eventListeners s @ new
            \<and> (\<forall>l\<in>set new. tracked (handler l)))
      \<and> elements s' = elements s \<and> features s' = features s)"

text \<open>The observers and media-query listeners are the same in both states.\<close>

definition sameObservers :: "app \<Rightarrow> app \<Rightarrow> bool" where
  "sameObservers s s' =
     (observers s' = observers s \<and> observing s' = observing s
      \<and> nextObserver s' = nextObserver s \<and> mediaListeners s' = mediaListeners s)"

section \<open>Properties of the regular expression and of the string helpers\<close>

lemma re_test_iff_lang: "re_test r s \<longleftrightarrow> s \<in> re_lang r"
proof (induction r s rule: re_test.induct)
  case (5 k r x xs)
  have "(x # xs \<in> re_lang (Plus k # r)) =
        (accepts k x \<and> (xs \<in> re_lang (Plus k # r) \<or> xs \<in> re_lang r))"
  proof
    assume "x # xs \<in> re_lang (Plus k # r)"
    then obtain u w where uw: "x # xs = u @ w" "u \<noteq> []" "list_all (accepts k) u" "w \<in> re_lang r"
      by auto
    then obtain u' where u': "u = x # u'" "xs = u' @ w"
      by (cases u) auto
    show "accepts k x \<and> (xs \<in> re_lang (Plus k # r) \<or> xs \<in> re_lang r)"
    proof (cases "u' = []")
      case True
      with uw u' show ?thesis by simp
    next
      case False
      with uw u' have "xs \<in> re_lang (Plus k # r)" by auto
      with uw u' show ?thesis by simp
    qed
  next
    assume a: "accepts k x \<and> (xs \<in> re_lang (Plus k # r) \<or> xs \<in> re_lang r)"
    then consider "xs \<in> re_lang (Plus k # r)" | "xs \<in> re_lang r" by blast
    then show "x # xs \<in> re_lang (Plus k # r)"
    proof cases
      case 1
      then obtain u w where "xs = u @ w" "u \<noteq> []" "list_all (accepts k) u" "w \<in> re_lang r"
        by auto
      with a have "x # xs = (x # u) @ w \<and> x # u \<noteq> [] \<and> list_all (accepts k) (x # u) \<and> w \<in> re_lang r"
        by simp
      then show ?thesis unfolding re_lang.simps mem_Collect_eq by blast
    next
      case 2
      with a have "x # xs = [x] @ xs \<and> [x] \<noteq> [] \<and> list_all (accepts k) [x] \<and> xs \<in> re_lang r"
        by simp
      then show ?thesis unfolding re_lang.simps mem_Collect_eq by blast
    qed
  qed
  with 5 show ?case by simp
qed auto

lemma of_char_toLowerChar:
  "(of_char (toLowerChar c) :: nat) =
     (if (65 \<le> (of_char c :: nat) \<and> (of_char c :: nat) \<le> 90)
         \<or> (192 \<le> (of_char c :: nat) \<and> (of_char c :: nat) \<le> 222 \<and> (of_char c :: nat) \<noteq> 215)
      then of_char c + 32 else of_char c)"
  by (simp add: toLowerChar_def Let_def)

lemma char_eq_of_char: "(c = d) = ((of_char c :: nat) = of_char d)"
  by simp

lemma isSpace_of_char:
  "isSpace c = ((of_char c :: nat) \<in> {9, 10, 11, 12, 13, 32, 160})"
  unfolding isSpace_def by (simp add: char_eq_of_char)

lemma isSpace_toLowerChar: "isSpace (toLowerChar c) = isSpace c"
  unfolding isSpace_of_char of_char_toLowerChar by auto

lemma toLowerChar_eq_at: "(toLowerChar c = CHR ''@'') = (c = CHR ''@'')"
  unfolding char_eq_of_char[of _ "CHR ''@''"] of_char_toLowerChar by auto

lemma toLowerChar_eq_dot: "(toLowerChar c = CHR ''.'') = (c = CHR ''.'')"
  unfolding char_eq_of_char[of _ "CHR ''.''"] of_char_toLowerChar by auto

lemma accepts_toLowerChar:
  "k = NotSpaceAt \<or> k = Lit CHR ''@'' \<or> k = Lit CHR ''.'' \<Longrightarrow>
   accepts k (toLowerChar c) = accepts k c"
  by (auto simp: isSpace_toLowerChar toLowerChar_eq_at toLowerChar_eq_dot)

lemma re_test_toLowerCase:
  "list_all lower_stable r \<Longrightarrow> re_test r (map toLowerChar s) = re_test r s"
  by (induction r s rule: re_test.induct) (simp_all add: accepts_toLowerChar)

lemma validateEmail_iff_test: "validateEmail s = re_test email_re s"
  unfolding validateEmail_def toLowerCase_def
  by (rule re_test_toLowerCase) (simp add: email_re_def)

lemma validateEmail_examples:
  "validateEmail ''a@b.co''" "\<not> validateEmail ''a@b''" "\<not> validateEmail ''a b@c.co''"
  by (simp_all add: validateEmail_iff_test email_re_def isSpace_def)

lemma validateEmail_nonempty: "validateEmail e \<Longrightarrow> e \<noteq> []"
  by (auto simp: validateEmail_iff_test email_re_def)

lemma trim_examples:
  "trim ''Al'' = ''Al''" "trim ''A'' = ''A''" "trim ''a@b.co'' = ''a@b.co''"
  "trim ''123456789'' = ''123456789''" "trim ''1234567890'' = ''1234567890''"
  "trim [] = []" "trim '' a@b.co '' = ''a@b.co''"
  by (simp_all add: trim_def isSpace_def)

section \<open>Claims about classification and validation\<close>

text \<open>
  C7.  For every string, \<open>validateEmail\<close> answers whether the string itself is in the
  language of the pattern: lowering the case first, as the code does, changes no answer.
  The three sample addresses come out as stated.
\<close>

theorem validateEmail_matches_pattern:
  "validateEmail s = (s \<in> re_lang email_re)
   \<and> validateEmail ''a@b.co'' = True
   \<and> validateEmail ''a@b'' = False
   \<and> validateEmail ''a b@c.co'' = False"
  using validateEmail_examples by (simp add: validateEmail_iff_test re_test_iff_lang)

text \<open>
  C6.  A viewport width is classified mobile exactly below 768, tablet exactly from 768
  up to but not including 1024, and desktop exactly in the remaining case.
\<close>

theorem getDeviceType_classification:
  "(getDeviceType w = Mobile) = (w < 768)
   \<and> (getDeviceType w = Tablet) = (768 \<le> w \<and> w < 1024)
   \<and> (getDeviceType w = Desktop) = (\<not> w < 768 \<and> \<not> (768 \<le> w \<and> w < 1024))"
  by (simp add: getDeviceType_def MOBILE_BREAKPOINT_def TABLET_BREAKPOINT_def)

lemma validateChatForm_iff:
  "validateChatForm fd =
     ((case fd ''chat-name'' of None \<Rightarrow> False | Some n \<Rightarrow> 2 \<le> length (trim n))
      \<and> (case fd ''chat-email'' of None \<Rightarrow> False | Some e \<Rightarrow> validateEmail (trim e))
      \<and> (case fd ''chat-message'' of None \<Rightarrow> False | Some m \<Rightarrow> 10 \<le> length (trim m)))"
  by (auto simp: validateChatForm_def falsy_def Let_def dest: validateEmail_nonempty
           split: option.splits)

text \<open>
  C4.  The chat form's composite check accepts a payload exactly when the trimmed name
  has at least 2 characters, the trimmed e-mail passes \<open>validateEmail\<close> and the trimmed
  message has at least 10 characters (a value the form lacks fails its check).  With a
  good e-mail and message the name \<open>Al\<close> is accepted and \<open>A\<close> is not; with a good name
  and e-mail a message of 9 characters is refused and one of 10 accepted.
\<close>

theorem validateChatForm_thresholds:
  "validateChatForm fd =
     ((case fd ''chat-name'' of None \<Rightarrow> False | Some n \<Rightarrow> 2 \<le> length (trim n))
      \<and> (case fd ''chat-email'' of None \<Rightarrow> False | Some e \<Rightarrow> validateEmail (trim e))
      \<and> (case fd ''chat-message'' of None \<Rightarrow> False | Some m \<Rightarrow> 10 \<le> length (trim m)))
   \<and> validateChatForm (chatPayload ''Al'' ''a@b.co'' ''1234567890'') = True
   \<and> validateChatForm (chatPayload ''A'' ''a@b.co'' ''1234567890'') = False
   \<and> validateChatForm (chatPayload ''Al'' ''a@b.co'' ''123456789'') = False"
proof -
  have "validateChatForm (chatPayload ''Al'' ''a@b.co'' ''1234567890'') = True"
       "validateChatForm (chatPayload ''A'' ''a@b.co'' ''1234567890'') = False"
       "validateChatForm (chatPayload ''Al'' ''a@b.co'' ''123456789'') = False"
    by (simp_all add: validateChatForm_iff chatPayload_def trim_examples validateEmail_examples)
  then show ?thesis using validateChatForm_iff [of fd] by simp
qed

text \<open>
  C3, as the code has it.  \<open>validateField\<close> answers true exactly when the control is not
  required or its trimmed value is non-empty, and it is not of type email or its trimmed
  value is empty or matches the pattern, and it declares no minimum length or its
  trimmed value has at least that many characters.  The e-mail pattern is applied to
  non-empty values only.
\<close>

theorem validateField_iff:
  "fst (validateField f) =
     ((\<not> f_required f \<or> trim (f_value f) \<noteq> [])
      \<and> (f_type f \<noteq> ''email'' \<or> trim (f_value f) = [] \<or> trim (f_value f) \<in> re_lang email_re)
      \<and> (\<not> declaresMinLength f
           \<or> (case f_minLength f of None \<Rightarrow> True
               | Some m \<Rightarrow> m \<le> int (length (trim (f_value f))))))"
  by (auto simp: validateField_def Let_def validateEmail_iff_test re_test_iff_lang
        declaresMinLength_def split: option.splits)

theorem validateField_iff_witness:
  "fst (validateField paddedRequiredEmail) = True"
proof -
  have "trim (f_value paddedRequiredEmail) = ''a@b.co''"
    by (simp add: paddedRequiredEmail_def trim_examples)
  moreover have "''a@b.co'' \<in> re_lang email_re"
    using validateEmail_examples(1) by (simp add: validateEmail_iff_test re_test_iff_lang)
  ultimately show ?thesis
    using validateField_iff [of paddedRequiredEmail]
    by (simp add: paddedRequiredEmail_def declaresMinLength_def)
qed

text \<open>
  C3, as stated, fails on an optional e-mail control left empty: the code accepts it,
  while the stated rule asks the empty value to match the pattern.
\<close>

theorem validateField_empty_email_counterexample:
  "fst (validateField emptyOptionalEmail) \<noteq> specFieldValid emptyOptionalEmail"
proof -
  have "\<not> re_test email_re []" by (simp add: email_re_def)
  then have "[] \<notin> re_lang email_re" by (simp add: re_test_iff_lang)
  then show ?thesis
    by (simp add: validateField_def specFieldValid_def emptyOptionalEmail_def trim_examples
          declaresMinLength_def Let_def)
qed

section \<open>Claims about navigation and the active section\<close>

lemma scanSections_Cons:
  "scanSections p (sec # rest) (cur, md) =
     (if covers p sec \<and> closer md (topDistance p sec)
      then scanSections p rest (Some (sectionId sec), Some (topDistance p sec))
      else scanSections p rest (cur, md))"
  by (auto simp: covers_def closer_def topDistance_def Let_def split: option.splits)

lemma chosen_head:
  "covers p a \<Longrightarrow> \<forall>x\<in>set secs. covers p x \<longrightarrow> topDistance p a \<le> topDistance p x \<Longrightarrow>
   chosen p (a # secs) a"
  unfolding chosen_def
  by (rule exI [of _ "[]"], rule exI [of _ secs]) simp

lemma chosen_tail:
  assumes "chosen p secs sec" and "covers p a \<longrightarrow> topDistance p sec < topDistance p a"
  shows "chosen p (a # secs) sec"
proof -
  from assms(1) obtain pre post where w: "secs = pre @ sec # post" "covers p sec"
    "\<forall>x\<in>set pre. covers p x \<longrightarrow> topDistance p sec < topDistance p x"
    "\<forall>x\<in>set post. covers p x \<longrightarrow> topDistance p sec \<le> topDistance p x"
    unfolding chosen_def by blast
  show ?thesis
    unfolding chosen_def
    by (rule exI [of _ "a # pre"], rule exI [of _ post]) (use w assms(2) in simp)
qed

lemma scanSections_result:
  "scanSections p secs (cur, md) = (cur', md') \<Longrightarrow>
     ((\<forall>x\<in>set secs. covers p x \<longrightarrow> \<not> closer md (topDistance p x)) \<and> cur' = cur \<and> md' = md)
   \<or> (\<exists>sec. chosen p secs sec \<and> closer md (topDistance p sec)
        \<and> cur' = Some (sectionId sec) \<and> md' = Some (topDistance p sec))"
proof (induction secs arbitrary: cur md)
  case Nil
  then show ?case by simp
next
  case (Cons a secs)
  show ?case
  proof (cases "covers p a \<and> closer md (topDistance p a)")
    case True
    with Cons.prems have run:
      "scanSections p secs (Some (sectionId a), Some (topDistance p a)) = (cur', md')"
      by (simp add: scanSections_Cons del: scanSections.simps)
    from Cons.IH [OF run] show ?thesis
    proof
      assume keep: "(\<forall>x\<in>set secs. covers p x \<longrightarrow> \<not> closer (Some (topDistance p a)) (topDistance p x))
        \<and> cur' = Some (sectionId a) \<and> md' = Some (topDistance p a)"
      then have "\<forall>x\<in>set secs. covers p x \<longrightarrow> topDistance p a \<le> topDistance p x"
        by (auto simp: closer_def)
      with True have "chosen p (a # secs) a" by (simp add: chosen_head)
      with True keep show ?thesis by blast
    next
      assume "\<exists>sec. chosen p secs sec \<and> closer (Some (topDistance p a)) (topDistance p sec)
        \<and> cur' = Some (sectionId sec) \<and> md' = Some (topDistance p sec)"
      then obtain sec where w: "chosen p secs sec" "topDistance p sec < topDistance p a"
        "cur' = Some (sectionId sec)" "md' = Some (topDistance p sec)"
        by (auto simp: closer_def)
      then have "chosen p (a # secs) sec" by (simp add: chosen_tail)
      moreover have "closer md (topDistance p sec)"
        using True w(2) by (auto simp: closer_def split: option.splits)
      ultimately show ?thesis using w by blast
    qed
  next
    case False
    with Cons.prems have run: "scanSections p secs (cur, md) = (cur', md')"
      by (simp add: scanSections_Cons del: scanSections.simps)
    from Cons.IH [OF run] show ?thesis
    proof
      assume "(\<forall>x\<in>set secs. covers p x \<longrightarrow> \<not> closer md (topDistance p x)) \<and> cur' = cur \<and> md' = md"
      with False show ?thesis by simp
    next
      assume "\<exists>sec. chosen p secs sec \<and> closer md (topDistance p sec)
        \<and> cur' = Some (sectionId sec) \<and> md' = Some (topDistance p sec)"
      then obtain sec where w: "chosen p secs sec" "closer md (topDistance p sec)"
        "cur' = Some (sectionId sec)" "md' = Some (topDistance p sec)"
        by blast
      have "covers p a \<longrightarrow> topDistance p sec < topDistance p a"
        using False w(2) by (auto simp: closer_def split: option.splits)
      with w(1) have "chosen p (a # secs) sec" by (rule chosen_tail)
      with w show ?thesis by blast
    qed
  qed
qed

lemma scanSections_from_start:
  "(\<forall>x\<in>set secs. \<not> covers p x) \<Longrightarrow> fst (scanSections p secs (None, None)) = None"
  "(\<exists>x\<in>set secs. covers p x) \<Longrightarrow>
     \<exists>sec. chosen p secs sec \<and> fst (scanSections p secs (None, None)) = Some (sectionId sec)"
proof -
  obtain cur' md' where r: "scanSections p secs (None, None) = (cur', md')"
    by (cases "scanSections p secs (None, None)")
  note alt = scanSections_result [OF r]
  have chosen_covers: "\<And>sec. chosen p secs sec \<Longrightarrow> \<exists>x\<in>set secs. covers p x"
    unfolding chosen_def by auto
  show "(\<forall>x\<in>set secs. \<not> covers p x) \<Longrightarrow> fst (scanSections p secs (None, None)) = None"
    using alt r chosen_covers by auto
  show "(\<exists>x\<in>set secs. covers p x) \<Longrightarrow>
     \<exists>sec. chosen p secs sec \<and> fst (scanSections p secs (None, None)) = Some (sectionId sec)"
    using alt r by (auto simp: closer_def)
qed

lemma currentSection_updateActiveNavLink:
  "navLinks (elements s) \<noteq> [] \<Longrightarrow>
   currentSection (state (updateActiveNavLink s)) =
     (case fst (scanSections (scrollProbe s) (sections (elements s)) (None, None)) of
        None \<Rightarrow> ''home'' | Some i \<Rightarrow> idOrHome i)"
  by (simp add: updateActiveNavLink_def Let_def idOrHome_def split: option.splits)

lemma examplePage_selected:
  "currentSection (state (updateActiveNavLink examplePage)) = ''about''"
  by (simp add: updateActiveNavLink_def examplePage_def blankApp_def blankElements_def
        threeSections_def plainLink_def scrollProbe_def Let_def)

text \<open>
  C5, as the code has it.  Without navigation links \<open>updateActiveNavLink\<close> changes
  nothing.  With navigation links it probes the point
  \<open>scrollPosition + headerHeight + 100\<close>: when no section's extent, both edges included,
  contains the point, \<open>currentSection\<close> becomes \<open>home\<close>; otherwise it becomes the id of
  the section that contains the point and is nearest to it by its top edge, the first
  such section in document order, with \<open>home\<close> standing in for an empty id.  With home
  from 0 to 500, about from 500 to 1200, contact from 1200 to 2000 and the point at 600
  the result is \<open>about\<close>.
\<close>

theorem updateActiveNavLink_selects:
  "(navLinks (elements s) = [] \<longrightarrow> updateActiveNavLink s = s)
   \<and> (navLinks (elements s) \<noteq> [] \<longrightarrow>
        ((\<forall>sec\<in>set (sections (elements s)). \<not> covers (scrollProbe s) sec) \<longrightarrow>
            currentSection (state (updateActiveNavLink s)) = ''home'')
      \<and> ((\<exists>sec\<in>set (sections (elements s)). covers (scrollProbe s) sec) \<longrightarrow>
            (\<exists>sec. chosen (scrollProbe s) (sections (elements s)) sec
               \<and> currentSection (state (updateActiveNavLink s)) = idOrHome (sectionId sec))))
   \<and> scrollProbe examplePage = 600
   \<and> currentSection (state (updateActiveNavLink examplePage)) = ''about''"
proof (intro conjI impI)
  assume "navLinks (elements s) = []"
  then show "updateActiveNavLink s = s" by (simp add: updateActiveNavLink_def)
next
  assume "navLinks (elements s) \<noteq> []"
    and "\<forall>sec\<in>set (sections (elements s)). \<not> covers (scrollProbe s) sec"
  then show "currentSection (state (updateActiveNavLink s)) = ''home''"
    by (simp add: currentSection_updateActiveNavLink scanSections_from_start(1))
next
  assume links: "navLinks (elements s) \<noteq> []"
    and "\<exists>sec\<in>set (sections (elements s)). covers (scrollProbe s) sec"
  from scanSections_from_start(2) [OF this(2)]
  show "\<exists>sec. chosen (scrollProbe s) (sections (elements s)) sec
          \<and> currentSection (state (updateActiveNavLink s)) = idOrHome (sectionId sec)"
    using links by (auto simp: currentSection_updateActiveNavLink)
next
  show "scrollProbe examplePage = 600"
    by (simp add: scrollProbe_def examplePage_def blankApp_def blankElements_def)
next
  show "currentSection (state (updateActiveNavLink examplePage)) = ''about''"
    by (rule examplePage_selected)
qed

theorem updateActiveNavLink_selects_witness:
  "(\<exists>sec. chosen (scrollProbe examplePage) (sections (elements examplePage)) sec
      \<and> currentSection (state (updateActiveNavLink examplePage)) = idOrHome (sectionId sec))
   \<and> currentSection (state scrolledPast) = ''contact''
   \<and> currentSection (state (updateActiveNavLink scrolledPast)) = ''home''
   \<and> updateActiveNavLink noLinksPage = noLinksPage"
proof -
  have links: "navLinks (elements examplePage) \<noteq> []" "navLinks (elements scrolledPast) \<noteq> []"
    "navLinks (elements noLinksPage) = []"
    by (simp_all add: noLinksPage_def scrolledPast_def examplePage_def blankElements_def)
  have inside: "\<exists>sec\<in>set (sections (elements examplePage)). covers (scrollProbe examplePage) sec"
    by (simp add: examplePage_def blankApp_def blankElements_def threeSections_def
          scrollProbe_def covers_def)
  have outside: "\<forall>sec\<in>set (sections (elements scrolledPast)). \<not> covers (scrollProbe scrolledPast) sec"
    by (simp add: scrolledPast_def examplePage_def blankApp_def blankElements_def
          threeSections_def scrollProbe_def covers_def)
  have before: "currentSection (state scrolledPast) = ''contact''"
    by (simp add: scrolledPast_def)
  from updateActiveNavLink_selects [of examplePage] links(1) inside
       updateActiveNavLink_selects [of scrolledPast] links(2) outside before
       updateActiveNavLink_selects [of noLinksPage] links(3)
  show ?thesis by blast
qed

text \<open>
  C5, as stated, fails in three places.  On a page without navigation links the point
  600 lies in the section \<open>about\<close> and \<open>currentSection\<close> stays \<open>contact\<close>.  With the
  point at 2000, the bottom edge of the last section, no extent written from its top
  edge up to but not including its bottom edge contains the point, and the result is
  \<open>contact\<close>, not \<open>home\<close>.  On a page whose one section has the empty id the point 600
  lies in that section and \<open>currentSection\<close> becomes \<open>home\<close>, which is not its id.
\<close>

theorem updateActiveNavLink_counterexample:
  "scrollProbe noLinksPage = 600
   \<and> map sectionId (filter (coversHalfOpen 600) (sections (elements noLinksPage))) = [''about'']
   \<and> map sectionId (filter (covers 600) (sections (elements noLinksPage))) = [''about'']
   \<and> currentSection (state (updateActiveNavLink noLinksPage)) = ''contact''
   \<and> scrollProbe bottomEdgePage = 2000
   \<and> filter (coversHalfOpen 2000) (sections (elements bottomEdgePage)) = []
   \<and> currentSection (state (updateActiveNavLink bottomEdgePage)) = ''contact''
   \<and> scrollProbe emptyIdPage = 600
   \<and> map sectionId (filter (coversHalfOpen 600) (sections (elements emptyIdPage))) = [[]]
   \<and> currentSection (state (updateActiveNavLink emptyIdPage)) = ''home''"
proof -
  have "scrollProbe noLinksPage = 600" "scrollProbe bottomEdgePage = 2000"
    "scrollProbe emptyIdPage = 600"
    by (simp_all add: scrollProbe_def noLinksPage_def bottomEdgePage_def emptyIdPage_def
          examplePage_def blankApp_def blankElements_def)
  moreover have
    "map sectionId (filter (coversHalfOpen 600) (sections (elements noLinksPage))) = [''about'']"
    "map sectionId (filter (covers 600) (sections (elements noLinksPage))) = [''about'']"
    "filter (coversHalfOpen 2000) (sections (elements bottomEdgePage)) = []"
    "map sectionId (filter (coversHalfOpen 600) (sections (elements emptyIdPage))) = [[]]"
    by (simp_all add: noLinksPage_def bottomEdgePage_def emptyIdPage_def examplePage_def
          blankElements_def threeSections_def coversHalfOpen_def covers_def)
  moreover have "currentSection (state (updateActiveNavLink noLinksPage)) = ''contact''"
    by (simp add: updateActiveNavLink_def noLinksPage_def examplePage_def blankElements_def)
  moreover have "currentSection (state (updateActiveNavLink bottomEdgePage)) = ''contact''"
    by (simp add: updateActiveNavLink_def bottomEdgePage_def examplePage_def blankApp_def
          blankElements_def threeSections_def plainLink_def scrollProbe_def Let_def)
  moreover have "currentSection (state (updateActiveNavLink emptyIdPage)) = ''home''"
    by (simp add: updateActiveNavLink_def emptyIdPage_def examplePage_def blankApp_def
          blankElements_def plainLink_def scrollProbe_def Let_def)
  ultimately show ?thesis by simp
qed

text \<open>
  C10, as the code has it.  After \<open>openNav\<close> followed by \<open>closeNav\<close> the flag \<open>isNavOpen\<close>
  is false, which is its value before the calls exactly when the navigation was closed
  then.  When the navigation element and its toggle both exist and the device type is
  mobile, the body's overflow style ends up cleared; in every other case it is as it was.
\<close>

theorem openNav_closeNav:
  "isNavOpen (state (closeNav (openNav s))) = False
   \<and> (isNavOpen (state (closeNav (openNav s))) = isNavOpen (state s)) = (\<not> isNavOpen (state s))
   \<and> bodyOverflow (closeNav (openNav s)) =
       (if nav (elements s) \<noteq> None \<and> navToggle (elements s) \<noteq> None
           \<and> deviceType (state s) = Mobile
        then [] else bodyOverflow s)"
  by (simp add: closeNav_def openNav_def updateNavState_def Let_def split: option.splits)

text \<open>
  C10, as stated, fails when the navigation is open before the calls: the pair leaves
  it closed.
\<close>

theorem openNav_closeNav_counterexample:
  "isNavOpen (state (closeNav (openNav navOpenApp))) \<noteq> isNavOpen (state navOpenApp)"
  by (simp add: closeNav_def openNav_def updateNavState_def navOpenApp_def blankApp_def
        blankElements_def)

section \<open>Properties of the event loop and of the chat widget\<close>

declare runTimers.simps [simp del]

lemma run_append: "run (xs @ ys) s = run ys (run xs s)"
  by (induction xs arbitrary: s) auto

lemma earliest_None: "(earliest ts = None) = (ts = [])"
  by (cases ts) (auto split: option.splits)

lemma earliest_le: "earliest ts = Some t \<Longrightarrow> u \<in> set ts \<Longrightarrow> fst t \<le> fst u"
  by (induction ts arbitrary: t) (auto split: option.splits if_splits simp: earliest_None)

text \<open>What each operation leaves alone.\<close>

lemma showChatStatus_frame:
  "timers (showChatStatus m k s) = timers s" "now (showChatStatus m k s) = now s"
  "state (showChatStatus m k s) = state s" "consoleErrors (showChatStatus m k s) = consoleErrors s"
  "chatPanel (elements (showChatStatus m k s)) = chatPanel (elements s)"
  "chatToggle (elements (showChatStatus m k s)) = chatToggle (elements s)"
  "chatForm (elements (showChatStatus m k s)) = chatForm (elements s)"
  "chatMessages (elements (showChatStatus m k s)) = chatMessages (elements s)"
  by (simp_all add: showChatStatus_def split: option.splits)

lemma clearChatStatus_frame:
  "timers (clearChatStatus s) = timers s" "now (clearChatStatus s) = now s"
  "state (clearChatStatus s) = state s" "consoleErrors (clearChatStatus s) = consoleErrors s"
  "chatPanel (elements (clearChatStatus s)) = chatPanel (elements s)"
  "chatToggle (elements (clearChatStatus s)) = chatToggle (elements s)"
  "chatForm (elements (clearChatStatus s)) = chatForm (elements s)"
  "chatMessages (elements (clearChatStatus s)) = chatMessages (elements s)"
  by (simp_all add: clearChatStatus_def split: option.splits)

lemma addChatMessage_frame:
  "timers (addChatMessage m k s) = timers s" "now (addChatMessage m k s) = now s"
  "state (addChatMessage m k s) = state s" "consoleErrors (addChatMessage m k s) = consoleErrors s"
  "chatPanel (elements (addChatMessage m k s)) = chatPanel (elements s)"
  "chatToggle (elements (addChatMessage m k s)) = chatToggle (elements s)"
  "chatForm (elements (addChatMessage m k s)) = chatForm (elements s)"
  "chatStatus (elements (addChatMessage m k s)) = chatStatus (elements s)"
  by (simp_all add: addChatMessage_def split: option.splits)

lemma onSubmitButton_frame:
  "timers (onSubmitButton b s) = timers s" "now (onSubmitButton b s) = now s"
  "state (onSubmitButton b s) = state s" "consoleErrors (onSubmitButton b s) = consoleErrors s"
  "chatPanel (elements (onSubmitButton b s)) = chatPanel (elements s)"
  "chatToggle (elements (onSubmitButton b s)) = chatToggle (elements s)"
  "chatStatus (elements (onSubmitButton b s)) = chatStatus (elements s)"
  "chatMessages (elements (onSubmitButton b s)) = chatMessages (elements s)"
  by (simp_all add: onSubmitButton_def split: option.splits)

lemma resetForm_frame:
  "timers (resetForm s) = timers s" "now (resetForm s) = now s"
  "state (resetForm s) = state s" "consoleErrors (resetForm s) = consoleErrors s"
  "chatPanel (elements (resetForm s)) = chatPanel (elements s)"
  "chatToggle (elements (resetForm s)) = chatToggle (elements s)"
  "chatStatus (elements (resetForm s)) = chatStatus (elements s)"
  "chatMessages (elements (resetForm s)) = chatMessages (elements s)"
  by (simp_all add: resetForm_def split: option.splits)

lemma updateChatState_frame:
  "timers (updateChatState s) = timers s" "now (updateChatState s) = now s"
  "state (updateChatState s) = state s" "consoleErrors (updateChatState s) = consoleErrors s"
  "chatForm (elements (updateChatState s)) = chatForm (elements s)"
  "chatStatus (elements (updateChatState s)) = chatStatus (elements s)"
  "chatMessages (elements (updateChatState s)) = chatMessages (elements s)"
  "(chatToggle (elements (updateChatState s)) = None) = (chatToggle (elements s) = None)"
  "(chatPanel (elements (updateChatState s)) = None) = (chatPanel (elements s) = None)"
  by (simp_all add: updateChatState_def split: option.splits)

lemma updateNavState_frame:
  "timers (updateNavState s) = timers s" "now (updateNavState s) = now s"
  "isChatOpen (state (updateNavState s)) = isChatOpen (state s)"
  "consoleErrors (updateNavState s) = consoleErrors s"
  "chatPanel (elements (updateNavState s)) = chatPanel (elements s)"
  "chatToggle (elements (updateNavState s)) = chatToggle (elements s)"
  "chatForm (elements (updateNavState s)) = chatForm (elements s)"
  "chatStatus (elements (updateNavState s)) = chatStatus (elements s)"
  "chatMessages (elements (updateNavState s)) = chatMessages (elements s)"
  by (simp_all add: updateNavState_def Let_def split: option.splits)

lemma setTimeout_frame:
  "timers (setTimeout c d s) = timers s @ [(now s + d, c)]" "now (setTimeout c d s) = now s"
  "state (setTimeout c d s) = state s" "consoleErrors (setTimeout c d s) = consoleErrors s"
  "elements (setTimeout c d s) = elements s"
  by (simp_all add: setTimeout_def)

lemma announceStateChange_frame:
  "timers (announceStateChange m s) = timers s @ [(now s + 1000, RemoveAnnouncement (nextNode s))]"
  "now (announceStateChange m s) = now s"
  "state (announceStateChange m s) = state s"
  "consoleErrors (announceStateChange m s) = consoleErrors s"
  "elements (announceStateChange m s) = elements s"
  by (simp_all add: announceStateChange_def setTimeout_def)

lemma focusChatToggle_frame:
  "timers (focusChatToggle s) = timers s" "now (focusChatToggle s) = now s"
  "state (focusChatToggle s) = state s" "consoleErrors (focusChatToggle s) = consoleErrors s"
  "elements (focusChatToggle s) = elements s"
  by (simp_all add: focusChatToggle_def)

lemmas frames =
  showChatStatus_frame clearChatStatus_frame addChatMessage_frame onSubmitButton_frame
  resetForm_frame updateChatState_frame updateNavState_frame setTimeout_frame
  announceStateChange_frame focusChatToggle_frame

lemma handleChatSubmit_settled_frame:
  "now (handleChatSubmit_settled r s) = now s"
  "state (handleChatSubmit_settled r s) = state s"
  "chatPanel (elements (handleChatSubmit_settled r s)) = chatPanel (elements s)"
  "chatToggle (elements (handleChatSubmit_settled r s)) = chatToggle (elements s)"
  by (simp_all add: handleChatSubmit_settled_def Let_def frames split: settlement.splits)

lemma now_fire: "now (fire task s) = now s"
  by (cases task) (simp_all add: handleChatSubmit_settled_frame frames split: option.splits)

lemma now_step_other:
  "now (handleChatSubmit rnd s) = now s" "now (handleChatToggle s) = now s"
  "now (handleChatClose s) = now s" "now (handleEscape s) = now s"
  "now (handleClickOutside s) = now s"
  "now (openChat s) = now s" "now (closeChat s) = now s"
  by (simp_all add: handleChatSubmit_def simulateApiCall_def handleChatToggle_def
        handleChatClose_def handleEscape_def handleClickOutside_def openChat_def closeChat_def
        Let_def frames split: option.splits)

lemma timers_step_other:
  "u \<in> set (timers s) \<Longrightarrow> u \<in> set (timers (handleChatSubmit rnd s))"
  "u \<in> set (timers s) \<Longrightarrow> u \<in> set (timers (handleChatToggle s))"
  "u \<in> set (timers s) \<Longrightarrow> u \<in> set (timers (handleChatClose s))"
  "u \<in> set (timers s) \<Longrightarrow> u \<in> set (timers (handleEscape s))"
  "u \<in> set (timers s) \<Longrightarrow> u \<in> set (timers (handleClickOutside s))"
  "u \<in> set (timers s) \<Longrightarrow> u \<in> set (timers (openChat s))"
  "u \<in> set (timers s) \<Longrightarrow> u \<in> set (timers (closeChat s))"
  by (simp_all add: handleChatSubmit_def simulateApiCall_def handleChatToggle_def
        handleChatClose_def handleEscape_def handleClickOutside_def openChat_def closeChat_def
        Let_def frames split: option.splits)


text \<open>An invariant of the states between callbacks is an invariant of \<open>runTimers\<close>.\<close>

lemma runTimers_invariant:
  assumes start: "I s"
    and fired: "\<And>s t. I s \<Longrightarrow> earliest (timers s) = Some t \<Longrightarrow> fst t \<le> target \<Longrightarrow>
                  I (fire (snd t) (s\<lparr>now := max (now s) (fst t), timers := remove1 t (timers s)\<rparr>))"
    and clock: "\<And>s. I s \<Longrightarrow> I (s\<lparr>now := max (now s) target\<rparr>)"
  shows "I (runTimers target s)"
  using assms
proof (induction target s rule: runTimers.induct)
  case (1 target s)
  show ?case
  proof (cases "earliest (timers s)")
    case None
    with "1.prems"(1,3) show ?thesis by (simp add: runTimers.simps [of target s])
  next
    case (Some t)
    show ?thesis
    proof (cases "fst t \<le> target")
      case True
      have "I (fire (snd t) (s\<lparr>now := max (now s) (fst t), timers := remove1 t (timers s)\<rparr>))"
        using "1.prems"(1) Some True by (rule "1.prems"(2))
      then have "I (runTimers target
                 (fire (snd t) (s\<lparr>now := max (now s) (fst t), timers := remove1 t (timers s)\<rparr>)))"
        using "1.prems"(2,3) by (rule "1.IH" [OF Some True])
      with Some True show ?thesis by (simp add: runTimers.simps [of target s])
    next
      case False
      with Some "1.prems"(1,3) show ?thesis by (simp add: runTimers.simps [of target s])
    qed
  qed
qed

lemma now_runTimers: "now (runTimers target s) = max (now s) target"
proof (induction target s rule: runTimers.induct)
  case (1 target s)
  show ?case
  proof (cases "earliest (timers s)")
    case None
    then show ?thesis by (simp add: runTimers.simps [of target s])
  next
    case (Some t)
    show ?thesis
    proof (cases "fst t \<le> target")
      case True
      with Some 1 show ?thesis
        by (simp add: runTimers.simps [of target s] now_fire)
    next
      case False
      with Some show ?thesis by (simp add: runTimers.simps [of target s])
    qed
  qed
qed

lemma remaining_after_runTimers:
  "u \<in> set (timers (runTimers target s)) \<Longrightarrow> target < fst u"
proof (induction target s rule: runTimers.induct)
  case (1 target s)
  show ?case
  proof (cases "earliest (timers s)")
    case None
    with "1.prems" show ?thesis
      by (simp add: runTimers.simps [of target s] earliest_None)
  next
    case (Some t)
    show ?thesis
    proof (cases "fst t \<le> target")
      case True
      with Some 1 show ?thesis by (simp add: runTimers.simps [of target s])
    next
      case False
      with Some "1.prems" have "u \<in> set (timers s)"
        by (simp add: runTimers.simps [of target s])
      with Some have "fst t \<le> fst u" by (rule earliest_le)
      with False show ?thesis by simp
    qed
  qed
qed

lemma timers_fire_mem: "u \<in> set (timers s) \<Longrightarrow> u \<in> set (timers (fire task s))"
  using timers_fire [of task s] by auto

lemma pending_kept_runTimers:
  assumes "t0 \<in> set (timers s)" and "target < fst t0"
  shows "t0 \<in> set (timers (runTimers target s))"
proof (rule runTimers_invariant [where I = "\<lambda>s. t0 \<in> set (timers s)"])
  show "t0 \<in> set (timers s)" by fact
next
  fix s :: app and t
  assume "t0 \<in> set (timers s)" "earliest (timers s) = Some t" "fst t \<le> target"
  with assms(2) have "t0 \<noteq> t" "t0 \<in> set (timers s)" by auto
  then have "t0 \<in> set (remove1 t (timers s))" by (simp add: in_set_remove1)
  then show "t0 \<in> set (timers (fire (snd t) (s\<lparr>now := max (now s) (fst t), timers := remove1 t (timers s)\<rparr>)))"
    by (intro timers_fire_mem) simp
next
  fix s :: app assume "t0 \<in> set (timers s)"
  then show "t0 \<in> set (timers (s\<lparr>now := max (now s) target\<rparr>))" by simp
qed

lemma elapsed_Cons: "elapsed (e # evs) = span e + elapsed evs"
  by (cases e) (simp_all add: span_def)

lemma now_step: "now (step e s) = now s + span e"
  by (cases e) (simp_all add: span_def now_runTimers now_step_other split: option.splits)

lemma timers_step_mem:
  "u \<in> set (timers s) \<Longrightarrow> now s + span e < fst u \<Longrightarrow> u \<in> set (timers (step e s))"
  by (cases e)
     (simp_all add: span_def pending_kept_runTimers timers_step_other split: option.splits)

lemma pending_run:
  "t0 \<in> set (timers s) \<Longrightarrow> now s + elapsed evs < fst t0 \<Longrightarrow>
   t0 \<in> set (timers (run evs s)) \<and> now (run evs s) = now s + elapsed evs"
proof (induction evs arbitrary: s)
  case Nil
  then show ?case by simp
next
  case (Cons e evs)
  have "t0 \<in> set (timers (step e s))"
    using Cons.prems by (intro timers_step_mem) (simp_all add: elapsed_Cons)
  moreover have "now (step e s) + elapsed evs < fst t0"
    using Cons.prems by (simp add: now_step elapsed_Cons)
  ultimately have "t0 \<in> set (timers (run evs (step e s)))
      \<and> now (run evs (step e s)) = now (step e s) + elapsed evs"
    by (rule Cons.IH)
  then show ?case by (simp add: now_step elapsed_Cons)
qed

text \<open>Closing the chat.\<close>

lemma chatShownClosed_cong:
  "state s' = state s \<Longrightarrow> chatPanel (elements s') = chatPanel (elements s) \<Longrightarrow>
   chatToggle (elements s') = chatToggle (elements s) \<Longrightarrow>
   chatShownClosed s' = chatShownClosed s"
  by (simp add: chatShownClosed_def)

lemma chatShownClosed_AutoClose: "chatShownClosed (fire AutoCloseChat s)"
  by (simp add: chatShownClosed_def updateChatState_def boolString_def split: option.splits)

lemma chatShownClosed_fire: "chatShownClosed s \<Longrightarrow> chatShownClosed (fire task s)"
proof (cases task)
  case AutoCloseChat
  then show ?thesis by (simp only: chatShownClosed_AutoClose)
next
  case (TransportSettled r)
  assume "chatShownClosed s"
  moreover have "chatShownClosed (handleChatSubmit_settled r s) = chatShownClosed s"
    by (rule chatShownClosed_cong) (simp_all add: handleChatSubmit_settled_frame)
  ultimately show ?thesis using TransportSettled by simp
next
  case ClearChatStatus
  assume "chatShownClosed s"
  moreover have "chatShownClosed (clearChatStatus s) = chatShownClosed s"
    by (rule chatShownClosed_cong) (simp_all add: frames)
  ultimately show ?thesis using ClearChatStatus by simp
next
  case FocusFirstInput
  assume "chatShownClosed s"
  then show ?thesis using FocusFirstInput
    by (simp add: chatShownClosed_def split: option.splits)
next
  case (RemoveAnnouncement n)
  assume "chatShownClosed s"
  then show ?thesis using RemoveAnnouncement by (simp add: chatShownClosed_def)
qed

lemma autoClose_fires:
  assumes "(d, AutoCloseChat) \<in> set (timers s)" and "d \<le> target"
  shows "chatShownClosed (runTimers target s)"
proof -
  let ?I = "\<lambda>s. (d, AutoCloseChat) \<in> set (timers s) \<or> chatShownClosed s"
  have "?I (runTimers target s)"
  proof (rule runTimers_invariant [where I = ?I])
    show "?I s" using assms(1) by simp
  next
    fix s :: app and t
    assume inv: "?I s" and e: "earliest (timers s) = Some t" and "fst t \<le> target"
    let ?s' = "s\<lparr>now := max (now s) (fst t), timers := remove1 t (timers s)\<rparr>"
    show "?I (fire (snd t) ?s')"
    proof (cases "chatShownClosed s")
      case True
      then have "chatShownClosed ?s'" by (simp add: chatShownClosed_def)
      then show ?thesis by (simp add: chatShownClosed_fire)
    next
      case False
      with inv have mem: "(d, AutoCloseChat) \<in> set (timers s)" by simp
      show ?thesis
      proof (cases "t = (d, AutoCloseChat)")
        case True
        then have "snd t = AutoCloseChat" by simp
        then show ?thesis using chatShownClosed_AutoClose [of ?s'] by (simp del: fire.simps)
      next
        case False
        with mem have "(d, AutoCloseChat) \<in> set (timers ?s')" by (simp add: in_set_remove1)
        then show ?thesis by (simp add: timers_fire_mem)
      qed
    qed
  next
    fix s :: app assume "?I s"
    then show "?I (s\<lparr>now := max (now s) target\<rparr>)" by (simp add: chatShownClosed_def)
  qed
  moreover have "(d, AutoCloseChat) \<notin> set (timers (runTimers target s))"
    using remaining_after_runTimers [of "(d, AutoCloseChat)" target s] assms(2) by auto
  ultimately show ?thesis by simp
qed

section \<open>Claims about the chat submission flow\<close>

lemma settled_schedules:
  "(now s + CHAT_AUTO_CLOSE, AutoCloseChat) \<in> set (timers (handleChatSubmit_settled Fulfilled s))"
  by (simp add: handleChatSubmit_settled_def Let_def frames)

lemma hasChatButtons_cong:
  "chatToggle (elements s') = chatToggle (elements s) \<Longrightarrow>
   chatClose (elements s') = chatClose (elements s) \<Longrightarrow> hasChatButtons s' = hasChatButtons s"
  by (simp add: hasChatButtons_def)

lemma chatClose_frame:
  "chatClose (elements (showChatStatus m k s)) = chatClose (elements s)"
  "chatClose (elements (clearChatStatus s)) = chatClose (elements s)"
  "chatClose (elements (addChatMessage m k s)) = chatClose (elements s)"
  "chatClose (elements (onSubmitButton b s)) = chatClose (elements s)"
  "chatClose (elements (resetForm s)) = chatClose (elements s)"
  "chatClose (elements (updateChatState s)) = chatClose (elements s)"
  by (simp_all add: showChatStatus_def clearChatStatus_def addChatMessage_def onSubmitButton_def
        resetForm_def updateChatState_def split: option.splits)

lemma hasChatButtons_updateChatState: "hasChatButtons (updateChatState s) = hasChatButtons s"
  by (simp add: hasChatButtons_def chatClose_frame updateChatState_frame)

lemma hasChatButtons_settled: "hasChatButtons (handleChatSubmit_settled r s) = hasChatButtons s"
  by (rule hasChatButtons_cong)
     (simp_all add: handleChatSubmit_settled_frame handleChatSubmit_settled_def Let_def frames
        chatClose_frame split: settlement.splits)

lemma hasChatButtons_fire: "hasChatButtons s \<Longrightarrow> hasChatButtons (fire task s)"
proof (cases task)
  case (TransportSettled r)
  assume "hasChatButtons s"
  then show ?thesis using TransportSettled by (simp add: hasChatButtons_settled)
next
  case AutoCloseChat
  assume "hasChatButtons s"
  then show ?thesis using AutoCloseChat
    by (simp add: hasChatButtons_updateChatState) (simp add: hasChatButtons_def)
next
  case ClearChatStatus
  assume "hasChatButtons s"
  then show ?thesis using ClearChatStatus by (simp add: hasChatButtons_def chatClose_frame frames)
next
  case FocusFirstInput
  assume "hasChatButtons s"
  then show ?thesis using FocusFirstInput by (simp add: hasChatButtons_def split: option.splits)
next
  case (RemoveAnnouncement n)
  assume "hasChatButtons s"
  then show ?thesis using RemoveAnnouncement by (simp add: hasChatButtons_def)
qed

lemma hasChatButtons_runTimers: "hasChatButtons s \<Longrightarrow> hasChatButtons (runTimers target s)"
proof (rule runTimers_invariant [where I = hasChatButtons])
  fix s :: app and t
  assume "hasChatButtons s"
  then have "hasChatButtons (s\<lparr>now := max (now s) (fst t), timers := remove1 t (timers s)\<rparr>)"
    by (simp add: hasChatButtons_def)
  then show "hasChatButtons (fire (snd t) (s\<lparr>now := max (now s) (fst t), timers := remove1 t (timers s)\<rparr>))"
    by (rule hasChatButtons_fire)
next
  fix s :: app assume "hasChatButtons s"
  then show "hasChatButtons (s\<lparr>now := max (now s) target\<rparr>)" by (simp add: hasChatButtons_def)
qed

lemma chatShownClosed_runTimers: "chatShownClosed s \<Longrightarrow> chatShownClosed (runTimers target s)"
proof (rule runTimers_invariant [where I = chatShownClosed])
  fix s :: app and t
  assume "chatShownClosed s"
  then have "chatShownClosed (s\<lparr>now := max (now s) (fst t), timers := remove1 t (timers s)\<rparr>)"
    by (simp add: chatShownClosed_def)
  then show "chatShownClosed (fire (snd t) (s\<lparr>now := max (now s) (fst t), timers := remove1 t (timers s)\<rparr>))"
    by (rule chatShownClosed_fire)
next
  fix s :: app assume "chatShownClosed s"
  then show "chatShownClosed (s\<lparr>now := max (now s) target\<rparr>)" by (simp add: chatShownClosed_def)
qed

lemma handleChatClose_closes:
  "chatShownClosed (handleChatClose s)" "hasChatButtons (handleChatClose s) = hasChatButtons s"
proof -
  have "chatShownClosed (updateChatState (s\<lparr>state := (state s)\<lparr>isChatOpen := False\<rparr>\<rparr>))"
    using chatShownClosed_AutoClose [of s] by simp
  moreover have "chatShownClosed (handleChatClose s)
      = chatShownClosed (updateChatState (s\<lparr>state := (state s)\<lparr>isChatOpen := False\<rparr>\<rparr>))"
    unfolding handleChatClose_def by (rule chatShownClosed_cong) (simp_all add: frames)
  ultimately show "chatShownClosed (handleChatClose s)" by simp
  have "hasChatButtons (handleChatClose s)
      = hasChatButtons (updateChatState (s\<lparr>state := (state s)\<lparr>isChatOpen := False\<rparr>\<rparr>))"
    unfolding handleChatClose_def by (rule hasChatButtons_cong) (simp_all add: frames)
  then show "hasChatButtons (handleChatClose s) = hasChatButtons s"
    by (simp add: hasChatButtons_updateChatState) (simp add: hasChatButtons_def)
qed

lemma handleChatToggle_flips:
  "isChatOpen (state (handleChatToggle s)) = (\<not> isChatOpen (state s))"
  by (simp add: handleChatToggle_def Let_def frames)

lemma autoClose_after_success:
  assumes "elapsed evs + n = CHAT_AUTO_CLOSE" and "0 < n"
  shows "(now s + CHAT_AUTO_CLOSE, AutoCloseChat)
           \<in> set (timers (run evs (handleChatSubmit_settled Fulfilled s)))
       \<and> now (run (evs @ [Tick n]) (handleChatSubmit_settled Fulfilled s)) = now s + CHAT_AUTO_CLOSE
       \<and> chatShownClosed (run (evs @ [Tick n]) (handleChatSubmit_settled Fulfilled s))"
proof -
  let ?s1 = "handleChatSubmit_settled Fulfilled s"
  let ?due = "now s + CHAT_AUTO_CLOSE"
  have "now ?s1 + elapsed evs < fst (?due, AutoCloseChat)"
    using assms by (simp add: handleChatSubmit_settled_frame)
  with settled_schedules [of s]
  have pending: "(?due, AutoCloseChat) \<in> set (timers (run evs ?s1))"
    and clock: "now (run evs ?s1) = now ?s1 + elapsed evs"
    using pending_run [of "(?due, AutoCloseChat)" ?s1 evs] by simp_all
  have target: "now (run evs ?s1) + n = ?due"
    using clock assms by (simp add: handleChatSubmit_settled_frame)
  have last: "run (evs @ [Tick n]) ?s1 = runTimers ?due (run evs ?s1)"
    using target by (simp add: run_append)
  have "chatShownClosed (runTimers ?due (run evs ?s1))"
    using pending by (rule autoClose_fires) simp
  moreover have "now (runTimers ?due (run evs ?s1)) = ?due"
    using target by (simp add: now_runTimers)
  ultimately show ?thesis using pending last by simp
qed

text \<open>
  C9, as the code has it.  Take the moment the success branch of a chat submission has
  run, and let anything happen in the next \<open>CHAT_AUTO_CLOSE\<close> milliseconds: clicks on the
  toggle or the close button, Escape, clicks elsewhere, calls of \<open>openChat\<close> and
  \<open>closeChat\<close>, edits, further submissions, time passing.  Up to the last millisecond
  the auto-close callback is still pending; when the time is up, exactly
  \<open>CHAT_AUTO_CLOSE\<close> milliseconds after the success, the flag \<open>isChatOpen\<close> is off and,
  where panel and toggle both exist, their ARIA attributes say so.  The callback is
  never cancelled: what the user did to the panel in between makes no difference.
\<close>

theorem chat_autoClose:
  assumes "elapsed evs + n = CHAT_AUTO_CLOSE" and "0 < n"
  shows "(now s + CHAT_AUTO_CLOSE, AutoCloseChat)
           \<in> set (timers (run evs (handleChatSubmit_settled Fulfilled s)))
       \<and> now (run (evs @ [Tick n]) (handleChatSubmit_settled Fulfilled s)) = now s + CHAT_AUTO_CLOSE
       \<and> chatShownClosed (run (evs @ [Tick n]) (handleChatSubmit_settled Fulfilled s))"
  using assms by (rule autoClose_after_success)

theorem chat_autoClose_witness:
  "(30000, AutoCloseChat) \<in> set (timers (run [Tick 10000] afterSuccess))
   \<and> now (run ([Tick 10000] @ [Tick 20000]) afterSuccess) = 30000
   \<and> chatShownClosed (run ([Tick 10000] @ [Tick 20000]) afterSuccess)"
proof -
  have "elapsed [Tick 10000] + 20000 = CHAT_AUTO_CLOSE" "(0::nat) < 20000"
    by (simp_all add: CHAT_AUTO_CLOSE_def)
  from chat_autoClose [OF this, of "chatPage goodPayload"]
  show ?thesis
    by (simp add: afterSuccess_def CHAT_AUTO_CLOSE_def chatPage_def blankApp_def)
qed

text \<open>
  C9, as stated, fails when the user has closed and reopened the panel: closed by the
  close button after one second and reopened by the toggle one millisecond before the
  time is up, the panel is open, and one millisecond later, \<open>CHAT_AUTO_CLOSE\<close>
  milliseconds after the success, the callback has closed it all the same.
\<close>

theorem chat_autoClose_counterexample:
  "isChatOpen (state afterSuccess) = True
   \<and> isChatOpen (state (run [Tick 1000, ClickChatClose] afterSuccess)) = False
   \<and> isChatOpen (state (run [Tick 1000, ClickChatClose, Tick 28999, ClickChatToggle]
        afterSuccess)) = True
   \<and> now (run [Tick 1000, ClickChatClose, Tick 28999, ClickChatToggle] afterSuccess)
        = now afterSuccess + 29999
   \<and> now (run [Tick 1000, ClickChatClose, Tick 28999, ClickChatToggle, Tick 1] afterSuccess)
        = now afterSuccess + CHAT_AUTO_CLOSE
   \<and> isChatOpen (state (run [Tick 1000, ClickChatClose, Tick 28999, ClickChatToggle, Tick 1]
        afterSuccess)) = False"
proof -
  define a where "a = step (Tick 1000) afterSuccess"
  define b where "b = step ClickChatClose a"
  define c where "c = step (Tick 28999) b"
  define d where "d = step ClickChatToggle c"
  define f where "f = run [Tick 1000, ClickChatClose, Tick 28999, ClickChatToggle, Tick 1] afterSuccess"
  have s0: "hasChatButtons afterSuccess" "isChatOpen (state afterSuccess)"
    by (simp_all add: afterSuccess_def hasChatButtons_settled handleChatSubmit_settled_frame)
       (simp_all add: hasChatButtons_def chatPage_def blankApp_def blankElements_def)
  then have ka: "hasChatButtons a" by (simp add: a_def hasChatButtons_runTimers)
  then have b: "b = handleChatClose a" by (auto simp: b_def hasChatButtons_def)
  then have kb: "hasChatButtons b" "chatShownClosed b"
    using ka by (simp_all add: handleChatClose_closes)
  then have kc: "hasChatButtons c" "chatShownClosed c"
    by (simp_all add: c_def hasChatButtons_runTimers chatShownClosed_runTimers)
  then have d: "d = handleChatToggle c" by (auto simp: d_def hasChatButtons_def)
  have open_d: "isChatOpen (state d)"
    using kc(2) by (simp add: d handleChatToggle_flips chatShownClosed_def)
  have runs: "run [Tick 1000, ClickChatClose] afterSuccess = b"
    "run [Tick 1000, ClickChatClose, Tick 28999, ClickChatToggle] afterSuccess = d"
    by (simp_all add: a_def b_def c_def d_def)
  have clock: "now d = now afterSuccess + 29999"
    by (simp add: d_def c_def b_def a_def now_step span_def del: step.simps)
  have "elapsed [Tick 1000, ClickChatClose, Tick 28999, ClickChatToggle] + 1 = CHAT_AUTO_CLOSE"
    "(0::nat) < 1"
    by (simp_all add: CHAT_AUTO_CLOSE_def)
  from autoClose_after_success [OF this, of "chatPage goodPayload"]
  have "now (run ([Tick 1000, ClickChatClose, Tick 28999, ClickChatToggle] @ [Tick 1]) afterSuccess)
          = now (chatPage goodPayload) + CHAT_AUTO_CLOSE"
    "chatShownClosed (run ([Tick 1000, ClickChatClose, Tick 28999, ClickChatToggle] @ [Tick 1])
        afterSuccess)"
    unfolding afterSuccess_def by blast+
  then have fin: "now f = now afterSuccess + CHAT_AUTO_CLOSE" "\<not> isChatOpen (state f)"
    by (simp_all add: f_def afterSuccess_def chatShownClosed_def handleChatSubmit_settled_frame
          del: run.simps)
  show ?thesis
    unfolding runs f_def [symmetric]
    using s0(2) kb(2) open_d clock fin by (simp add: chatShownClosed_def)
qed

lemma transportDelay_bounds:
  "0 \<le> rnd \<Longrightarrow> rnd < 1 \<Longrightarrow>
   CHAT_MIN_RESPONSE_TIME \<le> transportDelay rnd \<and> transportDelay rnd < CHAT_MAX_RESPONSE_TIME"
  by (simp add: transportDelay_def CHAT_MIN_RESPONSE_TIME_def CHAT_MAX_RESPONSE_TIME_def)

lemma quiet_cong:
  "timers s' = timers s \<Longrightarrow> consoleErrors s' = consoleErrors s \<Longrightarrow>
   chatStatus (elements s') = chatStatus (elements s) \<Longrightarrow> quiet s' = quiet s"
  by (simp add: quiet_def rejectionPending_def catchRan_def showsFailure_def)

lemma different_messages:
  "invalidMessage \<noteq> failureMessage" "sendingMessage \<noteq> failureMessage"
  "successMessage \<noteq> failureMessage" "[] \<noteq> failureMessage"
  by (simp_all add: invalidMessage_def sendingMessage_def successMessage_def failureMessage_def)

lemma quiet_showChatStatus:
  "quiet s \<Longrightarrow> m \<noteq> failureMessage \<Longrightarrow> quiet (showChatStatus m k s)"
  by (simp add: quiet_def rejectionPending_def catchRan_def showsFailure_def showChatStatus_def
        split: option.splits)

lemma quiet_clearChatStatus: "quiet s \<Longrightarrow> quiet (clearChatStatus s)"
  using different_messages(4)
  by (simp add: quiet_def rejectionPending_def catchRan_def showsFailure_def clearChatStatus_def
        split: option.splits)

lemma quiet_setTimeout:
  "quiet s \<Longrightarrow> c \<noteq> TransportSettled Rejected \<Longrightarrow> quiet (setTimeout c d s)"
  by (auto simp: quiet_def rejectionPending_def catchRan_def showsFailure_def setTimeout_def)

lemma quiet_simple:
  "quiet (addChatMessage m k s) = quiet s" "quiet (onSubmitButton b s) = quiet s"
  "quiet (resetForm s) = quiet s" "quiet (updateChatState s) = quiet s"
  "quiet (updateNavState s) = quiet s" "quiet (focusChatToggle s) = quiet s"
  by (rule quiet_cong; simp add: frames)+

lemma quiet_settled: "quiet s \<Longrightarrow> quiet (handleChatSubmit_settled Fulfilled s)"
  by (simp add: handleChatSubmit_settled_def Let_def quiet_setTimeout quiet_simple
        quiet_showChatStatus different_messages)

lemma quiet_fire:
  "quiet s \<Longrightarrow> task \<noteq> TransportSettled Rejected \<Longrightarrow> quiet (fire task s)"
proof (cases task)
  case (TransportSettled r)
  assume "quiet s" "task \<noteq> TransportSettled Rejected"
  with TransportSettled show ?thesis by (cases r) (simp_all add: quiet_settled)
next
  case AutoCloseChat
  assume "quiet s"
  moreover have "quiet (s\<lparr>state := (state s)\<lparr>isChatOpen := False\<rparr>\<rparr>) = quiet s"
    by (rule quiet_cong) simp_all
  ultimately show ?thesis using AutoCloseChat by (simp add: quiet_simple)
next
  case ClearChatStatus
  assume "quiet s"
  then show ?thesis using ClearChatStatus by (simp add: quiet_clearChatStatus)
next
  case FocusFirstInput
  assume "quiet s"
  moreover have "\<And>i. quiet (s\<lparr>activeElement := i\<rparr>) = quiet s"
    by (rule quiet_cong) simp_all
  ultimately show ?thesis using FocusFirstInput by (simp split: option.splits)
next
  case (RemoveAnnouncement n)
  assume "quiet s"
  moreover have "\<And>a. quiet (s\<lparr>announcements := a\<rparr>) = quiet s"
    by (rule quiet_cong) simp_all
  ultimately show ?thesis using RemoveAnnouncement by simp
qed

lemma quiet_runTimers: "quiet s \<Longrightarrow> quiet (runTimers target s)"
proof (rule runTimers_invariant [where I = quiet])
  fix s :: app and t
  assume q: "quiet s" and e: "earliest (timers s) = Some t"
  let ?s' = "s\<lparr>now := max (now s) (fst t), timers := remove1 t (timers s)\<rparr>"
  from e have mem: "t \<in> set (timers s)" by (rule earliest_mem)
  with q have "snd t \<noteq> TransportSettled Rejected"
    by (cases t) (auto simp: quiet_def rejectionPending_def)
  moreover have "quiet ?s'"
    using q notin_set_remove1 [of _ "timers s" t]
    by (auto simp: quiet_def rejectionPending_def catchRan_def showsFailure_def)
  ultimately show "quiet (fire (snd t) ?s')" by (simp add: quiet_fire)
next
  fix s :: app assume "quiet s"
  moreover have "quiet (s\<lparr>now := max (now s) target\<rparr>) = quiet s"
    by (rule quiet_cong) simp_all
  ultimately show "quiet (s\<lparr>now := max (now s) target\<rparr>)" by simp
qed

lemma quiet_announce: "quiet s \<Longrightarrow> quiet (announceStateChange m s)"
proof -
  assume "quiet s"
  moreover have "\<And>a n. quiet (s\<lparr>announcements := a, nextNode := n\<rparr>) = quiet s"
    by (rule quiet_cong) simp_all
  ultimately show ?thesis by (simp add: announceStateChange_def quiet_setTimeout)
qed

lemma quiet_state: "quiet (s\<lparr>state := st\<rparr>) = quiet s"
  by (rule quiet_cong) simp_all

lemma quiet_active: "quiet (s\<lparr>activeElement := a\<rparr>) = quiet s"
  by (rule quiet_cong) simp_all

lemma quiet_step: "quiet s \<Longrightarrow> quiet (step e s)"
proof (cases e)
  case (Tick n)
  assume "quiet s"
  then show ?thesis using Tick by (simp add: quiet_runTimers)
next
  case (SubmitChat rnd)
  assume "quiet s"
  then show ?thesis using SubmitChat
    by (simp add: handleChatSubmit_def simulateApiCall_def Let_def quiet_setTimeout quiet_simple
          quiet_showChatStatus different_messages split: option.splits)
next
  case (EditField name v)
  assume "quiet s"
  then show ?thesis using EditField
    by (simp add: quiet_def rejectionPending_def catchRan_def showsFailure_def
          split: option.splits)
next
  case ClickChatToggle
  assume "quiet s"
  then show ?thesis using ClickChatToggle
    by (simp add: handleChatToggle_def Let_def quiet_announce quiet_setTimeout quiet_simple
          quiet_state)
next
  case ClickChatClose
  assume "quiet s"
  then show ?thesis using ClickChatClose
    by (simp add: handleChatClose_def quiet_simple quiet_state)
next
  case PressEscape
  assume "quiet s"
  then show ?thesis using PressEscape
    by (simp add: handleEscape_def Let_def quiet_simple quiet_state quiet_active)
next
  case ClickOutside
  assume "quiet s"
  then show ?thesis using ClickOutside
    by (simp add: handleClickOutside_def Let_def quiet_simple quiet_state)
next
  case CallOpenChat
  assume "quiet s"
  then show ?thesis using CallOpenChat by (simp add: openChat_def quiet_simple quiet_state)
next
  case CallCloseChat
  assume "quiet s"
  then show ?thesis using CallCloseChat by (simp add: closeChat_def quiet_simple quiet_state)
qed

lemma quiet_run: "quiet s \<Longrightarrow> quiet (run evs s)"
  by (induction evs arbitrary: s) (simp_all add: quiet_step)

lemma settled_after_delay:
  assumes "(due, TransportSettled Fulfilled) \<in> set (timers s)" and "now s \<le> due"
  shows "(due + CHAT_AUTO_CLOSE, AutoCloseChat) \<in> set (timers (runTimers due s))"
proof -
  let ?A = "\<lambda>s. (due, TransportSettled Fulfilled) \<in> set (timers s)"
  let ?B = "\<lambda>s. (due + CHAT_AUTO_CLOSE, AutoCloseChat) \<in> set (timers s)"
  let ?I = "\<lambda>s. now s \<le> due \<and> (?A s \<or> ?B s)"
  have "?I (runTimers due s)"
  proof (rule runTimers_invariant [where I = ?I])
    show "?I s" using assms by simp
  next
    fix s :: app and t
    assume inv: "?I s" and e: "earliest (timers s) = Some t" and le: "fst t \<le> due"
    let ?s' = "s\<lparr>now := max (now s) (fst t), timers := remove1 t (timers s)\<rparr>"
    have clock: "now ?s' \<le> due" using inv le by simp
    show "?I (fire (snd t) ?s')"
    proof (cases "t = (due, TransportSettled Fulfilled)")
      case True
      then have "now ?s' = due" using inv by simp
      then have "?B (handleChatSubmit_settled Fulfilled ?s')"
        using settled_schedules [of ?s'] by simp
      with True clock show ?thesis by (simp add: handleChatSubmit_settled_frame)
    next
      case False
      have "t \<noteq> (due + CHAT_AUTO_CLOSE, AutoCloseChat)"
        using le by (auto simp: CHAT_AUTO_CLOSE_def)
      with False inv have "?A ?s' \<or> ?B ?s'" by (auto simp: in_set_remove1)
      then have "?A (fire (snd t) ?s') \<or> ?B (fire (snd t) ?s')"
        by (auto intro: timers_fire_mem)
      with clock show ?thesis by (simp add: now_fire)
    qed
  next
    fix s :: app assume "?I s"
    then show "?I (s\<lparr>now := max (now s) due\<rparr>)" by simp
  qed
  moreover have "\<not> ?A (runTimers due s)"
    using remaining_after_runTimers [of "(due, TransportSettled Fulfilled)" due s] by auto
  ultimately show ?thesis by simp
qed

text \<open>
  C2.  The delay the transport computes from a random number in the range of
  \<^verbatim>\<open>Math.random()\<close> lies between \<open>CHAT_MIN_RESPONSE_TIME\<close> and \<open>CHAT_MAX_RESPONSE_TIME\<close>.
  The one callback \<open>simulateApiCall\<close> queues fulfils the promise; once the delay has
  passed the success branch of the submission has run (its auto-close callback is
  queued).  From a state with no trace of a failed transport, whatever happens next, no
  rejection is ever queued, the \<^verbatim>\<open>catch\<close> block of \<open>handleChatSubmit\<close> never runs and
  the failure text is never shown.
\<close>

theorem transport_always_resolves:
  assumes "0 \<le> rnd" and "rnd < 1" and "quiet s"
  shows "CHAT_MIN_RESPONSE_TIME \<le> transportDelay rnd
       \<and> transportDelay rnd \<le> CHAT_MAX_RESPONSE_TIME
       \<and> timers (simulateApiCall rnd s) =
           timers s @ [(now s + nat \<lfloor>transportDelay rnd\<rfloor>, TransportSettled Fulfilled)]
       \<and> (now s + nat \<lfloor>transportDelay rnd\<rfloor> + CHAT_AUTO_CLOSE, AutoCloseChat)
           \<in> set (timers (runTimers (now s + nat \<lfloor>transportDelay rnd\<rfloor>) (simulateApiCall rnd s)))
       \<and> \<not> rejectionPending (run evs s)
       \<and> \<not> catchRan (run evs s)
       \<and> \<not> showsFailure (run evs s)"
proof -
  have queued: "timers (simulateApiCall rnd s) =
      timers s @ [(now s + nat \<lfloor>transportDelay rnd\<rfloor>, TransportSettled Fulfilled)]"
    by (simp add: simulateApiCall_def frames)
  have "(now s + nat \<lfloor>transportDelay rnd\<rfloor>, TransportSettled Fulfilled)
          \<in> set (timers (simulateApiCall rnd s))"
    by (simp add: queued)
  moreover have "now (simulateApiCall rnd s) \<le> now s + nat \<lfloor>transportDelay rnd\<rfloor>"
    by (simp add: simulateApiCall_def frames)
  ultimately have "(now s + nat \<lfloor>transportDelay rnd\<rfloor> + CHAT_AUTO_CLOSE, AutoCloseChat)
      \<in> set (timers (runTimers (now s + nat \<lfloor>transportDelay rnd\<rfloor>) (simulateApiCall rnd s)))"
    by (rule settled_after_delay)
  moreover have "quiet (run evs s)" using assms(3) by (rule quiet_run)
  ultimately show ?thesis
    using transportDelay_bounds [OF assms(1,2)] queued by (simp add: quiet_def)
qed

lemma quiet_chatPage: "quiet (chatPage fd)"
  by (simp add: quiet_def rejectionPending_def catchRan_def showsFailure_def chatPage_def
        blankApp_def blankElements_def plainElement_def failureMessage_def)

theorem transport_always_resolves_witness:
  "transportDelay (1 / 4) = 1500
   \<and> \<not> catchRan (run [SubmitChat (1 / 4), Tick 1500, ClickChatClose, Tick 40000]
                    (chatPage goodPayload))
   \<and> \<not> showsFailure (run [SubmitChat (1 / 4), Tick 1500, ClickChatClose, Tick 40000]
                    (chatPage goodPayload))"
proof -
  have "transportDelay (1 / 4) = 1500"
    by (simp add: transportDelay_def CHAT_MIN_RESPONSE_TIME_def CHAT_MAX_RESPONSE_TIME_def)
  moreover have "(0::real) \<le> 1 / 4" "(1::real) / 4 < 1" by simp_all
  from transport_always_resolves [OF this quiet_chatPage]
  have "\<not> catchRan (run [SubmitChat (1 / 4), Tick 1500, ClickChatClose, Tick 40000]
                    (chatPage goodPayload))
   \<and> \<not> showsFailure (run [SubmitChat (1 / 4), Tick 1500, ClickChatClose, Tick 40000]
                    (chatPage goodPayload))"
    by blast
  ultimately show ?thesis by simp
qed

text \<open>
  C1.  On a page with the chat form, a submission queues the transport's callback
  exactly when the composite check accepts the form's contents.  When the check fails,
  all that \<open>handleChatSubmit\<close> does is show the validation message with the error
  class in the status element (nothing, on a page without that element): no callback is
  queued, and the form, its submit button and the transcript are as before.
\<close>

theorem handleChatSubmit_gate:
  assumes "chatForm (elements s) = Some f"
  shows "(timers (handleChatSubmit rnd s) \<noteq> timers s) = validateChatForm (entries f)
       \<and> (\<not> validateChatForm (entries f) \<longrightarrow>
            handleChatSubmit rnd s = showChatStatus invalidMessage ''error'' s
          \<and> timers (handleChatSubmit rnd s) = timers s
          \<and> chatForm (elements (handleChatSubmit rnd s)) = Some f
          \<and> chatMessages (elements (handleChatSubmit rnd s)) = chatMessages (elements s)
          \<and> chatStatus (elements (handleChatSubmit rnd s)) =
              map_option (\<lambda>e. e\<lparr>textContent := invalidMessage,
                                 classList := [''chat-status'', ''status-error''],
                                 attrs := (attrs e)(''role'' \<mapsto> ''status'',
                                                    ''aria-live'' \<mapsto> ''polite'')\<rparr>)
                (chatStatus (elements s)))"
  using assms
  by (simp add: handleChatSubmit_def simulateApiCall_def Let_def frames)
     (simp add: showChatStatus_def split: option.splits)

lemma badPayload_refused: "\<not> validateChatForm badPayload"
proof -
  have "trim ''a@b'' = ''a@b''" by (simp add: trim_def isSpace_def)
  then show ?thesis
    by (simp add: badPayload_def validateChatForm_iff chatPayload_def validateEmail_examples)
qed

theorem handleChatSubmit_gate_witness:
  "timers (handleChatSubmit 0 (chatPage badPayload)) = []
   \<and> chatForm (elements (handleChatSubmit 0 (chatPage badPayload))) = Some (chatFormOf badPayload)
   \<and> chatMessages (elements (handleChatSubmit 0 (chatPage badPayload))) = Some []
   \<and> map_option textContent (chatStatus (elements (handleChatSubmit 0 (chatPage badPayload))))
       = Some invalidMessage"
proof -
  have form: "chatForm (elements (chatPage badPayload)) = Some (chatFormOf badPayload)"
    by (simp add: chatPage_def blankElements_def)
  have bad: "\<not> validateChatForm (entries (chatFormOf badPayload))"
    using badPayload_refused by (simp add: chatFormOf_def)
  have "timers (chatPage badPayload) = []"
       "chatMessages (elements (chatPage badPayload)) = Some []"
       "chatStatus (elements (chatPage badPayload)) = Some plainElement"
    by (simp_all add: chatPage_def blankApp_def blankElements_def)
  moreover from handleChatSubmit_gate [OF form, of 0] bad
  have "timers (handleChatSubmit 0 (chatPage badPayload)) = timers (chatPage badPayload)
      \<and> chatForm (elements (handleChatSubmit 0 (chatPage badPayload))) = Some (chatFormOf badPayload)
      \<and> chatMessages (elements (handleChatSubmit 0 (chatPage badPayload)))
          = chatMessages (elements (chatPage badPayload))
      \<and> chatStatus (elements (handleChatSubmit 0 (chatPage badPayload))) =
              map_option (\<lambda>e. e\<lparr>textContent := invalidMessage,
                                 classList := [''chat-status'', ''status-error''],
                                 attrs := (attrs e)(''role'' \<mapsto> ''status'',
                                                    ''aria-live'' \<mapsto> ''polite'')\<rparr>)
                (chatStatus (elements (chatPage badPayload)))"
    by blast
  ultimately show ?thesis by simp
qed

section \<open>Claims about teardown\<close>

lemma listen_frame:
  "eventListeners (listen l s) = eventListeners s @ [l]"
  "set (attached (listen l s)) = insert l (set (attached s))"
  "elements (listen l s) = elements s" "features (listen l s) = features s"
  "observers (listen l s) = observers s" "observing (listen l s) = observing s"
  "nextObserver (listen l s) = nextObserver s" "mediaListeners (listen l s) = mediaListeners s"
  by (auto simp: listen_def addEventListener_def)

lemma addEventListener_frame:
  "eventListeners (addEventListener l s) = eventListeners s"
  "set (attached (addEventListener l s)) = insert l (set (attached s))"
  "elements (addEventListener l s) = elements s" "features (addEventListener l s) = features s"
  "observers (addEventListener l s) = observers s" "observing (addEventListener l s) = observing s"
  "nextObserver (addEventListener l s) = nextObserver s"
  "mediaListeners (addEventListener l s) = mediaListeners s"
  by (auto simp: addEventListener_def)

lemma grows_refl: "grows s s"
  by (simp add: grows_def)

lemma grows_trans [trans]: "grows a b \<Longrightarrow> grows b c \<Longrightarrow> grows a c"
proof -
  assume ab: "grows a b" and bc: "grows b c"
  from ab obtain n1 where n1: "eventListeners b = eventListeners a @ n1"
    "\<forall>l\<in>set n1. tracked (handler l)"
    unfolding grows_def by blast
  from bc obtain n2 where n2: "eventListeners c = eventListeners b @ n2"
    "\<forall>l\<in>set n2. tracked (handler l)"
    unfolding grows_def by blast
  have "eventListeners c = eventListeners a @ (n1 @ n2) \<and> (\<forall>l\<in>set (n1 @ n2). tracked (handler l))"
    using n1 n2 by auto
  then have "\<exists>new. eventListeners c = eventListeners a @ new \<and> (\<forall>l\<in>set new. tracked (handler l))"
    by blast
  moreover have "set (attached a) \<subseteq> set (attached c)" "elements c = elements a"
    "features c = features a"
    using ab bc unfolding grows_def by auto
  ultimately show ?thesis unfolding grows_def by simp
qed

lemma grows_listen: "tracked (handler l) \<Longrightarrow> grows s (listen l s)"
  by (auto simp: grows_def listen_frame)

lemma grows_addEventListener: "grows s (addEventListener l s)"
  by (auto simp: grows_def addEventListener_frame)

text \<open>Whatever relation between states is reflexive, transitive and kept by \<open>listen\<close>
  for a tracked callback holds between a state and \<open>setupEventListeners\<close> of it.\<close>

lemma fold_rel:
  assumes "\<And>s. R s s" and "\<And>a b c. R a b \<Longrightarrow> R b c \<Longrightarrow> R a c"
    and "\<And>i s. i \<in> set xs \<Longrightarrow> R s (f i s)"
  shows "R s (fold f xs s)"
  using assms(3)
proof (induction xs arbitrary: s)
  case Nil
  then show ?case by (simp add: assms(1))
next
  case (Cons x xs)
  have "R s (f x s)" by (rule Cons.prems) simp
  moreover have "R (f x s) (fold f xs (f x s))" by (rule Cons.IH) (simp add: Cons.prems)
  ultimately show ?case using assms(2) by simp
qed

lemma setupEventListeners_rel:
  assumes refl: "\<And>s. R s s" and trans: "\<And>a b c. R a b \<Longrightarrow> R b c \<Longrightarrow> R a c"
    and step: "\<And>l s. tracked (handler l) \<Longrightarrow> R s (listen l s)"
  shows "R s (setupEventListeners s)"
proof -
  define s1 where "s1 = (if navToggle (elements s) \<noteq> None
                then listen \<lparr>element = NavToggle, type = ''click'', handler = HandleNavToggle\<rparr> s
                else s)"
  define s2 where "s2 = fold (\<lambda>i. listen \<lparr>element = NavLink i, type = ''click'',
                                    handler = HandleNavLinkClick i\<rparr>)
                 [0..<length (navLinks (elements s1))] s1"
  define s3 where "s3 = (if chatToggle (elements s2) \<noteq> None
                then listen \<lparr>element = ChatToggle, type = ''click'', handler = HandleChatToggle\<rparr> s2
                else s2)"
  define s4 where "s4 = (if chatClose (elements s3)
                then listen \<lparr>element = ChatClose, type = ''click'', handler = HandleChatClose\<rparr> s3
                else s3)"
  define s5 where "s5 = (case chatForm (elements s4) of
                  None \<Rightarrow> s4
                | Some f \<Rightarrow>
                    fold (\<lambda>i s. listen \<lparr>element = ChatControl i, type = ''input'',
                                           handler = InputHandler i\<rparr>
                                   (listen \<lparr>element = ChatControl i, type = ''blur'',
                                            handler = BlurHandler i\<rparr> s))
                      [0..<length (controls f)]
                      (listen \<lparr>element = ChatForm, type = ''submit'', handler = HandleChatSubmit\<rparr> s4))"
  define s6 where "s6 = (if newsletterForm (elements s5)
                then listen \<lparr>element = NewsletterForm, type = ''submit'',
                             handler = HandleNewsletterSubmit\<rparr> s5
                else s5)"
  define s7 where "s7 = fold (\<lambda>i s. if forms (elements s) ! i = ''signup-form''
                                 \<or> forms (elements s) ! i = ''login-form''
                              then s
                              else listen \<lparr>element = GenericForm i, type = ''submit'',
                                           handler = HandleFormSubmit i\<rparr> s)
                 [0..<length (forms (elements s6))] s6"
  define s8 where "s8 = listen \<lparr>element = BackToTop, type = ''click'', handler = ScrollToTop\<rparr> s7"
  define s9 where "s9 = fold listen
           [\<lparr>element = Window, type = ''scroll'', handler = ScrollHandler\<rparr>,
            \<lparr>element = Window, type = ''resize'', handler = ResizeHandler\<rparr>,
            \<lparr>element = Window, type = ''load'', handler = LoadHandler\<rparr>,
            \<lparr>element = Document, type = ''keydown'', handler = KeyDownHandler\<rparr>,
            \<lparr>element = Document, type = ''click'', handler = ClickOutsideHandler\<rparr>,
            \<lparr>element = Document, type = ''visibilitychange'', handler = VisibilityHandler\<rparr>]
           s8"
  have folded: "R s (fold f xs s)" if "\<And>i s. i \<in> set xs \<Longrightarrow> R s (f i s)" for f xs s
    using refl trans that by (rule fold_rel)
  have "R s s1" unfolding s1_def by (auto intro: refl step)
  moreover have "R s1 s2" unfolding s2_def by (rule folded) (rule step, simp)
  ultimately have "R s s2" by (rule trans)
  moreover have "R s2 s3" unfolding s3_def by (auto intro: refl step)
  ultimately have "R s s3" by (rule trans)
  moreover have "R s3 s4" unfolding s4_def by (auto intro: refl step)
  ultimately have "R s s4" by (rule trans)
  moreover have "R s4 s5"
  proof (cases "chatForm (elements s4)")
    case None
    then show ?thesis by (simp add: s5_def refl)
  next
    case (Some f)
    let ?a = "listen \<lparr>element = ChatForm, type = ''submit'', handler = HandleChatSubmit\<rparr> s4"
    have "R s4 ?a" by (rule step) simp
    moreover have "R ?a (fold (\<lambda>i s. listen \<lparr>element = ChatControl i, type = ''input'',
                                           handler = InputHandler i\<rparr>
                                   (listen \<lparr>element = ChatControl i, type = ''blur'',
                                            handler = BlurHandler i\<rparr> s))
                      [0..<length (controls f)] ?a)"
      by (rule folded) (rule trans [OF step step], simp_all)
    ultimately have "R s4 (fold (\<lambda>i s. listen \<lparr>element = ChatControl i, type = ''input'',
                                           handler = InputHandler i\<rparr>
                                   (listen \<lparr>element = ChatControl i, type = ''blur'',
                                            handler = BlurHandler i\<rparr> s))
                      [0..<length (controls f)] ?a)"
      by (rule trans)
    then show ?thesis using Some by (simp add: s5_def)
  qed
  ultimately have "R s s5" by (rule trans)
  moreover have "R s5 s6" unfolding s6_def by (auto intro: refl step)
  ultimately have "R s s6" by (rule trans)
  moreover have "R s6 s7" unfolding s7_def by (rule folded) (auto intro: refl step)
  ultimately have "R s s7" by (rule trans)
  moreover have "R s7 s8" unfolding s8_def by (rule step) simp
  ultimately have "R s s8" by (rule trans)
  moreover have "R s8 s9" unfolding s9_def by (rule folded) (auto intro: step)
  ultimately have "R s s9" by (rule trans)
  moreover have "setupEventListeners s = s9"
    by (simp only: setupEventListeners_def Let_def s9_def s8_def s7_def s6_def s5_def s4_def
          s3_def s2_def s1_def)
  ultimately show ?thesis by simp
qed

lemma grows_setupEventListeners: "grows s (setupEventListeners s)"
  by (rule setupEventListeners_rel [of grows, OF grows_refl grows_trans grows_listen])

lemma sameObservers_setupEventListeners: "sameObservers s (setupEventListeners s)"
  by (rule setupEventListeners_rel [of sameObservers])
     (simp_all add: sameObservers_def listen_frame)

lemma grows_same:
  "attached s' = attached s \<Longrightarrow> eventListeners s' = eventListeners s \<Longrightarrow>
   elements s' = elements s \<Longrightarrow> features s' = features s \<Longrightarrow> grows s s'"
  by (simp add: grows_def)

lemma grows_initModules: "grows s (initModules s)"
proof -
  have "grows s (initIntersectionObserver s)"
    by (rule grows_same) (simp_all add: initIntersectionObserver_def)
  also have "grows \<dots> (initServiceWorker \<dots>)"
    by (simp add: initServiceWorker_def grows_refl grows_addEventListener)
  finally show ?thesis by (simp add: initModules_def)
qed

lemma grows_setupObservers: "grows s (setupObservers s)"
proof -
  have "grows s (observeSystemPreferences s)"
    by (rule grows_same) (simp_all add: observeSystemPreferences_def)
  also have "grows \<dots> (observeNavigationState \<dots>)"
    unfolding observeNavigationState_def
    by (auto intro: grows_refl grows_trans [OF grows_listen grows_listen])
  also have "grows \<dots> (observeNetworkStatus \<dots>)"
    by (simp add: observeNetworkStatus_def grows_refl grows_addEventListener)
  finally show ?thesis by (simp add: setupObservers_def)
qed

lemma grows_setupLazyLoading: "grows s (setupLazyLoading s)"
  by (rule grows_same) (simp_all add: setupLazyLoading_def setupLazyLoadFallback_def)

lemma grows_setupPassiveEventListeners: "grows s (setupPassiveEventListeners s)"
  unfolding setupPassiveEventListeners_def
  by (rule grows_trans [OF grows_addEventListener grows_addEventListener])

lemma grows_init_prefix:
  "grows s (setupObservers (initModules (setupEventListeners s)))"
  by (rule grows_trans [OF grows_trans [OF grows_setupEventListeners grows_initModules]
        grows_setupObservers])

lemma construct_fresh: "construct w s = init (fresh w s)"
  by (simp add: construct_def)

lemma grows_initApp: "grows (setupPassiveEventListeners (setupObservers (initModules
    (setupEventListeners (fresh w s))))) (initApp w s)"
  unfolding initApp_def construct_fresh init_def optimizePerformance_def
  by (rule grows_trans [OF grows_setupLazyLoading
        grows_trans [OF grows_addEventListener grows_addEventListener]])

lemma grows_fresh_initApp: "grows (fresh w s) (initApp w s)"
  by (rule grows_trans [OF grows_trans [OF grows_init_prefix grows_setupPassiveEventListeners]
        grows_initApp])

lemma recorded_tracked: "l \<in> set (eventListeners (initApp w s)) \<Longrightarrow> tracked (handler l)"
  using grows_fresh_initApp [of w s] by (auto simp: grows_def fresh_def)

lemma passive_attached:
  "\<lparr>element = Document, type = ''touchstart'', handler = Noop\<rparr> \<in> set (attached (initApp w s))"
  "\<lparr>element = Document, type = ''touchmove'', handler = Noop\<rparr> \<in> set (attached (initApp w s))"
  using grows_initApp [of w s]
  by (auto simp: grows_def setupPassiveEventListeners_def addEventListener_frame)

lemma global_attached:
  "\<lparr>element = Window, type = ''error'', handler = GlobalErrorHandler\<rparr>
     \<in> set (attached (initApp w s))"
  "\<lparr>element = Window, type = ''unhandledrejection'', handler = UnhandledRejectionHandler\<rparr>
     \<in> set (attached (initApp w s))"
  by (simp_all add: initApp_def addEventListener_frame)

lemma attached_fold_remove:
  "attached (fold removeEventListener ls s) = filter (\<lambda>l. l \<notin> set ls) (attached s)"
  by (induction ls arbitrary: s) (auto simp: removeEventListener_def removeAll_filter_not_eq
        intro: filter_cong)

lemma releaseObserver_frame:
  "attached (fold releaseObserver obs s) = attached s"
  "eventListeners (fold releaseObserver obs s) = eventListeners s"
  by (induction obs arbitrary: s) (simp_all add: releaseObserver_def split: observer.splits)

lemma observing_fold_release:
  "observing (fold releaseObserver obs s) =
     filter (\<lambda>n. IntersectionObs n \<notin> set obs) (observing s)"
  by (induction obs arbitrary: s)
     (auto simp: releaseObserver_def removeAll_filter_not_eq split: observer.splits
        intro: filter_cong)

lemma mediaListeners_fold_release:
  "mediaListeners (fold releaseObserver obs s) =
     filter (\<lambda>(m, h). MediaObs m h \<notin> set obs) (mediaListeners s)"
  by (induction obs arbitrary: s)
     (auto simp: releaseObserver_def removeAll_filter_not_eq split: observer.splits
        intro: filter_cong)

lemma destroy_effect:
  "eventListeners (destroy s) = []" "observers (destroy s) = []"
  "attached (destroy s) = filter (\<lambda>l. l \<notin> set (eventListeners s)) (attached s)"
  "observing (destroy s) = filter (\<lambda>n. IntersectionObs n \<notin> set (observers s)) (observing s)"
  "mediaListeners (destroy s) =
     filter (\<lambda>(m, h). MediaObs m h \<notin> set (observers s)) (mediaListeners s)"
proof -
  have obs: "observers (fold removeEventListener ls s) = observers s"
    "observing (fold removeEventListener ls s) = observing s"
    "mediaListeners (fold removeEventListener ls s) = mediaListeners s" for ls
    by (induction ls arbitrary: s) (simp_all add: removeEventListener_def)
  show "eventListeners (destroy s) = []" "observers (destroy s) = []"
    "attached (destroy s) = filter (\<lambda>l. l \<notin> set (eventListeners s)) (attached s)"
    "observing (destroy s) = filter (\<lambda>n. IntersectionObs n \<notin> set (observers s)) (observing s)"
    "mediaListeners (destroy s) =
       filter (\<lambda>(m, h). MediaObs m h \<notin> set (observers s)) (mediaListeners s)"
    by (simp_all add: destroy_def Let_def releaseObserver_frame attached_fold_remove
          observing_fold_release mediaListeners_fold_release obs)
qed

lemma survives:
  "l \<in> set (attached (initApp w s)) \<Longrightarrow> \<not> tracked (handler l) \<Longrightarrow>
   handler l \<in> set (dispatch (element l) (type l) (destroy (initApp w s)))"
  using recorded_tracked [of l w s] by (auto simp: dispatch_def destroy_effect)

text \<open>
  C8.  What \<open>destroy\<close> achieves after \<open>initApp\<close>, on any page and in any browser: the
  registry and the observer list are empty, no recorded listener is attached any more,
  no recorded intersection observer is observing and no recorded media-query handler is
  registered.  What it leaves behind: the listeners that were attached without being
  recorded.  A \<open>touchstart\<close> or \<open>touchmove\<close> event at the document still runs the
  callback of \<open>setupPassiveEventListeners\<close>, and an \<open>error\<close> or \<open>unhandledrejection\<close>
  event at the window still runs the handlers of \<open>initApp\<close>.
\<close>

theorem destroy_leaves_listeners:
  "eventListeners (destroy (initApp w s)) = []
   \<and> observers (destroy (initApp w s)) = []
   \<and> set (eventListeners (initApp w s)) \<inter> set (attached (destroy (initApp w s))) = {}
   \<and> {n. IntersectionObs n \<in> set (observers (initApp w s))}
       \<inter> set (observing (destroy (initApp w s))) = {}
   \<and> {(m, h). MediaObs m h \<in> set (observers (initApp w s))}
       \<inter> set (mediaListeners (destroy (initApp w s))) = {}
   \<and> Noop \<in> set (dispatch Document ''touchstart'' (destroy (initApp w s)))
   \<and> Noop \<in> set (dispatch Document ''touchmove'' (destroy (initApp w s)))
   \<and> GlobalErrorHandler \<in> set (dispatch Window ''error'' (destroy (initApp w s)))
   \<and> UnhandledRejectionHandler
       \<in> set (dispatch Window ''unhandledrejection'' (destroy (initApp w s)))"
proof -
  have "set (eventListeners (initApp w s)) \<inter> set (attached (destroy (initApp w s))) = {}"
       "{n. IntersectionObs n \<in> set (observers (initApp w s))}
          \<inter> set (observing (destroy (initApp w s))) = {}"
       "{(m, h). MediaObs m h \<in> set (observers (initApp w s))}
          \<inter> set (mediaListeners (destroy (initApp w s))) = {}"
    by (auto simp: destroy_effect)
  moreover note survives [OF passive_attached(1)] survives [OF passive_attached(2)]
    survives [OF global_attached(1)] survives [OF global_attached(2)]
  ultimately show ?thesis by (simp add: destroy_effect)
qed

text \<open>Likewise the listener on the network connection, where the browser has one, and
  the observer of the lazy-loading fallback, where that is used.\<close>

lemma connection_survives:
  assumes "hasConnection (features s)"
  shows "UpdateNetworkStatus \<in> set (dispatch Connection ''change'' (destroy (initApp w s)))"
proof -
  let ?l = "\<lparr>element = Connection, type = ''change'', handler = UpdateNetworkStatus\<rparr>"
  let ?y = "observeNavigationState (observeSystemPreferences (initModules
              (setupEventListeners (fresh w s))))"
  have "grows (fresh w s) (initModules (setupEventListeners (fresh w s)))"
    by (rule grows_trans [OF grows_setupEventListeners grows_initModules])
  then have "features (initModules (setupEventListeners (fresh w s))) = features s"
    by (simp add: grows_def fresh_def)
  then have "hasConnection (features ?y)"
    using assms by (simp add: observeNavigationState_def observeSystemPreferences_def listen_frame)
  then have "?l \<in> set (attached (observeNetworkStatus ?y))"
    by (simp add: observeNetworkStatus_def addEventListener_frame)
  moreover have "grows (setupObservers (initModules (setupEventListeners (fresh w s))))
      (initApp w s)"
    by (rule grows_trans [OF grows_setupPassiveEventListeners grows_initApp])
  ultimately have "?l \<in> set (attached (initApp w s))"
    by (auto simp: grows_def setupObservers_def)
  from survives [OF this] show ?thesis by simp
qed

lemma lazy_observer_survives:
  assumes "hasIntersectionObserver (features s)" and "\<not> nativeLazyLoading (features s)"
  shows "nextObserver s + 1 \<in> set (observing (destroy (initApp w s)))"
proof -
  let ?a = "setupEventListeners (fresh w s)"
  have a: "observers ?a = []" "nextObserver ?a = nextObserver s" "features ?a = features s"
    using sameObservers_setupEventListeners [of "fresh w s"] grows_setupEventListeners [of "fresh w s"]
    by (simp_all add: sameObservers_def grows_def fresh_def)
  let ?b = "setupObservers (initModules ?a)"
  have b: "observers ?b = [IntersectionObs (nextObserver s), MediaObs PrefersDark DarkModeHandler,
                           MediaObs PrefersReducedMotion MotionHandler]"
    "nextObserver ?b = nextObserver s + 1" "features ?b = features s"
    using a assms(1)
    by (simp_all add: setupObservers_def initModules_def initIntersectionObserver_def
          initServiceWorker_def observeSystemPreferences_def observeNavigationState_def
          observeNetworkStatus_def listen_frame addEventListener_frame)
  let ?c = "setupLazyLoading (setupPassiveEventListeners ?b)"
  have c: "observers ?c = observers ?b" "nextObserver s + 1 \<in> set (observing ?c)"
    using b assms
    by (simp_all add: setupLazyLoading_def setupLazyLoadFallback_def
          setupPassiveEventListeners_def addEventListener_frame)
  have "initApp w s = addEventListener \<lparr>element = Window, type = ''unhandledrejection'',
                        handler = UnhandledRejectionHandler\<rparr>
       (addEventListener \<lparr>element = Window, type = ''error'', handler = GlobalErrorHandler\<rparr> ?c)"
    by (simp add: initApp_def construct_fresh init_def optimizePerformance_def)
  then have "observers (initApp w s) = observers ?b"
    "nextObserver s + 1 \<in> set (observing (initApp w s))"
    using c by (simp_all add: addEventListener_frame)
  then show ?thesis using b(1) by (simp add: destroy_effect)
qed

end
